theory Spec2Isabelle
  imports Main "HOL-Library.Sublist"
begin

section \<open>Bonding attribute lists in sysfs (src/sysfs.c)\<close>

subsection \<open>The C library as sysfs.c uses it\<close>

text \<open>
  The file system is outside the program. A value of type \<open>'w\<close> stands for it, and the
  record below holds what \<open>sysfs.c\<close> takes from its surroundings:
  \<^item> \<open>PATH_MAX\<close>, the constant of \<open>limits.h\<close>;
  \<^item> \<open>trace_ifconfig\<close>, the truth value of \<open>ni_debug & NI_TRACE_IFCONFIG\<close>;
  \<^item> \<open>fopen_read\<close>: \<open>fopen(path, "r")\<close>, \<open>None\<close> when it returns \<open>NULL\<close>, otherwise the
    bytes that the \<open>fgets\<close> calls will deliver;
  \<^item> \<open>fopen_write\<close>: \<open>fopen(path, "w")\<close>, \<open>False\<close> when it returns \<open>NULL\<close>;
  \<^item> \<open>vfprintf_fclose\<close>: the text is handed to \<open>vfprintf\<close>, whose result the code drops,
    and the stream is closed; the integer is the result of \<open>fclose\<close>.
\<close>

record 'w sysfs_os =
  PATH_MAX :: nat
  trace_ifconfig :: bool
  fopen_read :: "string \<Rightarrow> 'w \<Rightarrow> string option"
  fopen_write :: "string \<Rightarrow> 'w \<Rightarrow> bool \<times> 'w"
  vfprintf_fclose :: "string \<Rightarrow> string \<Rightarrow> 'w \<Rightarrow> int \<times> 'w"

text \<open>
  The state threaded through the code: the file system, and a record of every call of
  \<open>__ni_sysfs_printf\<close> (path and formatted text), kept to speak about the writes issued.
\<close>

record 'w sysfs_state =
  world :: 'w
  printf_calls :: "(string \<times> string) list"

text \<open>
  Reading \<open>arr.data[i]\<close> with \<open>i \<ge> arr.count\<close> leaves the array; C gives it no meaning.
  The model stops there with the index and the count.
\<close>

datatype fault = Read_past_end nat nat

definition array_get :: "string list \<Rightarrow> nat \<Rightarrow> fault + string" where
  "array_get arr i =
     (if i < length arr then Inr (arr ! i) else Inl (Read_past_end i (length arr)))"

subsection \<open>Path, write and read helpers\<close>

text \<open>\<open>snprintf(pathbuf, sizeof(pathbuf), "%s/%s/bonding/%s", ...)\<close> keeps at most
  \<open>PATH_MAX - 1\<close> characters.\<close>

definition bonding_pathbuf :: "'w sysfs_os \<Rightarrow> string \<Rightarrow> string \<Rightarrow> string" where
  "bonding_pathbuf os ifname attr_name =
     take (PATH_MAX os - 1) (''/sys/class/net'' @ ''/'' @ ifname @ ''/bonding/'' @ attr_name)"

text \<open>\<open>__ni_sysfs_printf\<close>: \<open>-1\<close> when the file cannot be opened or \<open>fclose\<close> reports an
  error, \<open>0\<close> otherwise.\<close>

definition ni_sysfs_printf ::
  "'w sysfs_os \<Rightarrow> string \<Rightarrow> string \<Rightarrow> 'w sysfs_state \<Rightarrow> int \<times> 'w sysfs_state" where
  "ni_sysfs_printf os pathname txt s =
     (let s0 = s\<lparr>printf_calls := printf_calls s @ [(pathname, txt)]\<rparr> in
      case fopen_write os pathname (world s0) of
        (False, w1) \<Rightarrow> (- 1, s0\<lparr>world := w1\<rparr>)
      | (True, w1) \<Rightarrow>
          (case vfprintf_fclose os pathname txt w1 of
             (rc, w2) \<Rightarrow> (if rc < 0 then - 1 else 0, s0\<lparr>world := w2\<rparr>)))"

text \<open>\<open>fgets(buffer, 256, fp)\<close> delivers at most 255 characters and stops after a
  newline; the pair is the buffer and the rest of the stream.\<close>

fun fgets_chars :: "nat \<Rightarrow> string \<Rightarrow> string \<times> string" where
  "fgets_chars 0 s = ([], s)"
| "fgets_chars (Suc k) [] = ([], [])"
| "fgets_chars (Suc k) (c # s) =
     (if c = CHR 0x0A then ([c], s)
      else (case fgets_chars k s of (l, r) \<Rightarrow> (c # l, r)))"

definition is_delim :: "char \<Rightarrow> bool" where
  "is_delim c = (c = CHR '' '' \<or> c = CHR 0x09 \<or> c = CHR 0x0A)"

text \<open>The \<open>strtok(buffer, " \t\n")\<close> loop: the tokens of one buffer, in order; the first
  argument is the token being collected.\<close>

fun strtok_tokens :: "string \<Rightarrow> string \<Rightarrow> string list" where
  "strtok_tokens cur [] = (if cur = [] then [] else [cur])"
| "strtok_tokens cur (c # s) =
     (if is_delim c then (if cur = [] then strtok_tokens [] s else cur # strtok_tokens [] s)
      else strtok_tokens (cur @ [c]) s)"

text \<open>The \<open>while (fgets(...) != NULL)\<close> loop of \<open>__ni_sysfs_read_list\<close>. The buffer is a C
  string, so \<open>strtok\<close> sees it up to its first NUL byte.\<close>

function read_tokens :: "string \<Rightarrow> string list" where
  "read_tokens s =
     (if s = [] then []
      else strtok_tokens [] (takeWhile (\<lambda>c. c \<noteq> CHR 0x00) (fst (fgets_chars 255 s)))
           @ read_tokens (snd (fgets_chars 255 s)))"
  by pat_completeness auto
termination
proof (relation "measure length")
  show "wf (measure length)" by simp
next
  fix s :: string
  assume ne: "s \<noteq> []"
  have rest: "length (snd (fgets_chars k t)) \<le> length t" for k t
    by (induction k t rule: fgets_chars.induct) (auto split: prod.splits)
  from ne obtain c t where s: "s = c # t" by (cases s) auto
  have progress: "length (snd (fgets_chars (Suc k) (c # t))) < length (c # t)" for k
    using rest[of k t] by (auto split: prod.splits)
  from progress[of 254] have "length (snd (fgets_chars 255 (c # t))) < length (c # t)"
    by (simp del: fgets_chars.simps)
  with s show "(snd (fgets_chars 255 s), s) \<in> measure length" by simp
qed

declare read_tokens.simps [simp del]

text \<open>\<open>__ni_sysfs_read_list\<close> appends the tokens to \<open>result\<close>; \<open>-1\<close> when the file cannot
  be opened.\<close>

definition ni_sysfs_read_list ::
  "'w sysfs_os \<Rightarrow> string \<Rightarrow> string list \<Rightarrow> 'w \<Rightarrow> int \<times> string list" where
  "ni_sysfs_read_list os pathname result w =
     (case fopen_read os pathname w of
        None \<Rightarrow> (- 1, result)
      | Some content \<Rightarrow> (0, result @ read_tokens content))"

subsection \<open>Comparing two string arrays\<close>

text \<open>Modelled from the spec: \<open>ni_string_array_comm\<close> is called by \<open>sysfs.c\<close> and defined in
  a file that is not at hand. The spec: to-remove is what is in current and not in
  desired, to-add what is in desired and not in current, unchanged what is in both, each
  in the order of its source sequence. The result is (unique to the first array, unique
  to the second array, common to both), the order of the three output arguments.\<close>

definition ni_string_array_comm ::
  "string list \<Rightarrow> string list \<Rightarrow> string list \<times> string list \<times> string list" where
  "ni_string_array_comm a b =
     (filter (\<lambda>x. x \<notin> set b) a, filter (\<lambda>x. x \<notin> set a) b, filter (\<lambda>x. x \<in> set b) a)"

subsection \<open>Setting a list attribute\<close>

text \<open>A loop \<open>for (i = 0; i < n; ++i) ni_trace(fmt, arr.data[i])\<close>: the output of
  \<open>ni_trace\<close> is not modelled, the array reads of its argument are.\<close>

fun trace_each :: "string list \<Rightarrow> nat list \<Rightarrow> fault option" where
  "trace_each arr [] = None"
| "trace_each arr (i # is) =
     (case array_get arr i of Inl f \<Rightarrow> Some f | Inr _ \<Rightarrow> trace_each arr is)"

text \<open>The block under \<open>if (ni_debug & NI_TRACE_IFCONFIG)\<close>: the third loop runs to
  \<open>unchanged.count\<close> and reads \<open>add.data[i]\<close>.\<close>

definition trace_block :: "string list \<Rightarrow> string list \<Rightarrow> string list \<Rightarrow> fault option" where
  "trace_block delete add unchanged =
     (case trace_each delete [0..<length delete] of
        Some f \<Rightarrow> Some f
      | None \<Rightarrow>
          (case trace_each add [0..<length add] of
             Some f \<Rightarrow> Some f
           | None \<Rightarrow> trace_each add [0..<length unchanged]))"

text \<open>The two write loops differ in the sign of the format only (\<open>"-%s\n"\<close>, \<open>"+%s\n"\<close>).
  \<open>False\<close> is the \<open>goto done\<close> taken at the first write that returns a negative value.\<close>

fun printf_loop ::
  "'w sysfs_os \<Rightarrow> string \<Rightarrow> string \<Rightarrow> string list \<Rightarrow> 'w sysfs_state \<Rightarrow> bool \<times> 'w sysfs_state"
  where
  "printf_loop os pathbuf sign [] s = (True, s)"
| "printf_loop os pathbuf sign (x # xs) s =
     (case ni_sysfs_printf os pathbuf (sign @ x @ ''\<newline>'') s of
        (rc, s1) \<Rightarrow> if rc < 0 then (False, s1) else printf_loop os pathbuf sign xs s1)"

text \<open>\<open>ni_sysfs_bonding_set_list_attr\<close>. The comparison function is an argument, since
  its code is not at hand; \<open>Inl\<close> is a read outside an array, \<open>Inr\<close> the value returned and
  the state left behind.\<close>

definition ni_sysfs_bonding_set_list_attr ::
  "'w sysfs_os \<Rightarrow> (string list \<Rightarrow> string list \<Rightarrow> string list \<times> string list \<times> string list)
   \<Rightarrow> string \<Rightarrow> string \<Rightarrow> string list \<Rightarrow> 'w sysfs_state \<Rightarrow> fault + (int \<times> 'w sysfs_state)"
  where
  "ni_sysfs_bonding_set_list_attr os comm ifname attr_name lst s =
     (let pathbuf = bonding_pathbuf os ifname attr_name in
      case ni_sysfs_read_list os pathbuf [] (world s) of
        (rc, current) \<Rightarrow>
          if rc < 0 then Inr (- 1, s)
          else
            (case comm current lst of
               (delete, add, unchanged) \<Rightarrow>
                 if length add = 0 \<and> length delete = 0 then Inr (0, s)
                 else
                   (case (if trace_ifconfig os then trace_block delete add unchanged
                          else None) of
                      Some f \<Rightarrow> Inl f
                    | None \<Rightarrow>
                        (case printf_loop os pathbuf ''-'' delete s of
                           (False, s1) \<Rightarrow> Inr (- 1, s1)
                         | (True, s1) \<Rightarrow>
                             (case printf_loop os pathbuf ''+'' add s1 of
                                (False, s2) \<Rightarrow> Inr (- 1, s2)
                              | (True, s2) \<Rightarrow> Inr (0, s2))))))"

subsection \<open>Sequences of writes\<close>

text \<open>The texts written for a diff: one line \<open>-x\<close> for each element to delete, then one
  line \<open>+x\<close> for each element to add.\<close>

definition attr_ops :: "string list \<Rightarrow> string list \<Rightarrow> string list" where
  "attr_ops delete add =
     map (\<lambda>x. ''-'' @ x @ ''\<newline>'') delete @ map (\<lambda>x. ''+'' @ x @ ''\<newline>'') add"

text \<open>The state after the given texts have been written one after the other, whatever
  each write returned.\<close>

definition after_writes ::
  "'w sysfs_os \<Rightarrow> string \<Rightarrow> string list \<Rightarrow> 'w sysfs_state \<Rightarrow> 'w sysfs_state" where
  "after_writes os p ts s = foldl (\<lambda>s t. snd (ni_sysfs_printf os p t s)) s ts"

text \<open>The value returned by the write number \<open>i\<close> of such a sequence.\<close>

definition rc_at :: "'w sysfs_os \<Rightarrow> string \<Rightarrow> string list \<Rightarrow> 'w sysfs_state \<Rightarrow> nat \<Rightarrow> int" where
  "rc_at os p ts s i = fst (ni_sysfs_printf os p (ts ! i) (after_writes os p (take i ts) s))"

text \<open>The spec's step 4 in its own words: apply the operations in order, stop at the first
  one that fails and return failure, leave what was written as it is.\<close>

fun write_seq ::
  "'w sysfs_os \<Rightarrow> string \<Rightarrow> string list \<Rightarrow> 'w sysfs_state \<Rightarrow> int \<times> 'w sysfs_state" where
  "write_seq os p [] s = (0, s)"
| "write_seq os p (t # ts) s =
     (case ni_sysfs_printf os p t s of
        (rc, s1) \<Rightarrow> if rc < 0 then (- 1, s1) else write_seq os p ts s1)"

text \<open>A file system for the examples: the attribute file always reads \<open>content\<close>, and the
  world is the number of writes that will still succeed.\<close>

definition bond_os :: "string \<Rightarrow> bool \<Rightarrow> nat sysfs_os" where
  "bond_os content tr =
     \<lparr>PATH_MAX = 4096, trace_ifconfig = tr,
      fopen_read = (\<lambda>p w. Some content),
      fopen_write = (\<lambda>p w. (0 < w, w)),
      vfprintf_fclose = (\<lambda>p t w. (0, w - 1))\<rparr>"

section \<open>The reachability requirement (client/reachable.c)\<close>

subsection \<open>Data\<close>

text \<open>
  \<open>fsm->last_event_seq\<close> is indexed by the event; the check reads two entries. The type of
  the sequence numbers is declared in a header that is not at hand; the check compares
  them with \<open>==\<close> and \<open><\<close> only, so the model takes any linearly ordered type \<open>'s\<close>. The
  socket address is a type \<open>'a\<close> that the check only passes on.
\<close>

datatype ni_event = NI_EVENT_ADDRESS_ACQUIRED | NI_EVENT_RESOLVER_UPDATED | NI_EVENT_OTHER nat

record 'a ni_reachability_check =
  hostname :: string
  family :: int
  address_valid :: bool
  address :: 'a

text \<open>The requirement as this check sees it. \<open>user_data\<close> is the check record that
  \<open>ni_ifworker_reachability_check_new\<close> attaches; the destructor sets the pointer to
  \<open>NULL\<close>, and what it leaves is no longer a reachability requirement.\<close>

record ('s, 'a) ni_fsm_require =
  event_seq :: 's
  user_data :: "'a ni_reachability_check"

record 's ni_objectmodel_fsm =
  fsm_event_seq :: 's
  last_event_seq :: "ni_event \<Rightarrow> 's"

text \<open>
  The resolver and the prober are outside the program. \<open>ni_resolve_hostname_timed\<close> gets
  the host name, the family, the address buffer it may overwrite and the timeout, and
  returns its count and the buffer; \<open>ni_host_is_reachable\<close> returns its count. Both may
  depend on and change the network \<open>'w\<close>. The state also records the calls made.
\<close>

record ('w, 'a) net_env =
  ni_resolve_hostname_timed :: "string \<Rightarrow> int \<Rightarrow> 'a \<Rightarrow> nat \<Rightarrow> 'w \<Rightarrow> int \<times> 'a \<times> 'w"
  ni_host_is_reachable :: "string \<Rightarrow> 'a \<Rightarrow> 'w \<Rightarrow> int \<times> 'w"

datatype 'a net_call = Resolve_call string int nat | Reachable_call string 'a

record ('w, 'a) net_state =
  net_world :: 'w
  net_calls :: "'a net_call list"

subsection \<open>The check\<close>

text \<open>\<open>ni_resolve_hostname_timed(check->hostname, check->family, &check->address, 1)\<close>.\<close>

definition call_resolve ::
  "('w, 'a) net_env \<Rightarrow> 'a ni_reachability_check \<Rightarrow> ('w, 'a) net_state
   \<Rightarrow> int \<times> 'a ni_reachability_check \<times> ('w, 'a) net_state" where
  "call_resolve env check st =
     (case ni_resolve_hostname_timed env (hostname check) (family check) (address check) 1
             (net_world st) of
        (n, a, w) \<Rightarrow>
          (n, check\<lparr>address := a\<rparr>,
           \<lparr>net_world = w,
            net_calls = net_calls st @ [Resolve_call (hostname check) (family check) 1]\<rparr>))"

text \<open>\<open>ni_host_is_reachable(check->hostname, &check->address)\<close>.\<close>

definition call_reachable ::
  "('w, 'a) net_env \<Rightarrow> 'a ni_reachability_check \<Rightarrow> ('w, 'a) net_state
   \<Rightarrow> int \<times> ('w, 'a) net_state" where
  "call_reachable env check st =
     (case ni_host_is_reachable env (hostname check) (address check) (net_world st) of
        (n, w) \<Rightarrow>
          (n, \<lparr>net_world = w,
               net_calls = net_calls st @ [Reachable_call (hostname check) (address check)]\<rparr>))"

text \<open>The end of the function, from \<open>check->address_valid = TRUE\<close> on: both ways of
  getting there (cached address, fresh address) continue here.\<close>

definition check_host ::
  "('w, 'a) net_env \<Rightarrow> ('s, 'a) ni_fsm_require \<Rightarrow> 'a ni_reachability_check
   \<Rightarrow> ('w, 'a) net_state \<Rightarrow> bool \<times> ('s, 'a) ni_fsm_require \<times> ('w, 'a) net_state" where
  "check_host env req check st =
     (let check1 = check\<lparr>address_valid := True\<rparr> in
      case call_reachable env check1 st of
        (n, st1) \<Rightarrow> (if n \<le> 0 then (False, req\<lparr>user_data := check1\<rparr>, st1)
                     else (True, req\<lparr>user_data := check1\<rparr>, st1)))"

text \<open>The check record after \<open>if (req->event_seq < fsm->last_event_seq[NI_EVENT_RESOLVER_UPDATED])
  check->address_valid = FALSE\<close>.\<close>

definition stale_address ::
  "('s::linorder) ni_objectmodel_fsm \<Rightarrow> ('s, 'a) ni_fsm_require \<Rightarrow> 'a ni_reachability_check"
  where
  "stale_address fsm req =
     (if event_seq req < last_event_seq fsm NI_EVENT_RESOLVER_UPDATED
      then (user_data req)\<lparr>address_valid := False\<rparr> else user_data req)"

text \<open>\<open>ni_fsm_require_check_reachable\<close>: the value returned, the requirement and the
  state after the call. The worker argument is not used by the code.\<close>

definition ni_fsm_require_check_reachable ::
  "('w, 'a) net_env \<Rightarrow> ('s::linorder) ni_objectmodel_fsm \<Rightarrow> ('s, 'a) ni_fsm_require
   \<Rightarrow> ('w, 'a) net_state \<Rightarrow> bool \<times> ('s, 'a) ni_fsm_require \<times> ('w, 'a) net_state" where
  "ni_fsm_require_check_reachable env fsm req st =
     (if event_seq req = last_event_seq fsm NI_EVENT_ADDRESS_ACQUIRED then (False, req, st)
      else
        let check1 = stale_address fsm req;
            req1 = req\<lparr>event_seq := fsm_event_seq fsm, user_data := check1\<rparr>
        in
          if \<not> address_valid check1 then
            (case call_resolve env check1 st of
               (n, check2, st1) \<Rightarrow>
                 if n \<le> 0 then (False, req1\<lparr>user_data := check2\<rparr>, st1)
                 else check_host env req1 check2 st1)
          else check_host env req1 check1 st)"

text \<open>The caller polls: one evaluation for each state of the event counters in the list,
  on the requirement and the network left by the one before.\<close>

fun evaluate_rounds ::
  "('w, 'a) net_env \<Rightarrow> ('s::linorder) ni_objectmodel_fsm list \<Rightarrow> ('s, 'a) ni_fsm_require
   \<Rightarrow> ('w, 'a) net_state \<Rightarrow> bool list" where
  "evaluate_rounds env [] req st = []"
| "evaluate_rounds env (fsm # fsms) req st =
     (case ni_fsm_require_check_reachable env fsm req st of
        (b, req1, st1) \<Rightarrow> b # evaluate_rounds env fsms req1 st1)"

text \<open>Inputs for the examples: a resolver and a prober that return fixed counts (the
  network counts the calls), event counters, and a requirement for one host.\<close>

definition fixed_env :: "int \<Rightarrow> int \<Rightarrow> (nat, string) net_env" where
  "fixed_env rn pn =
     \<lparr>ni_resolve_hostname_timed =
        (\<lambda>h f a t w. (rn, if 0 < rn then ''192.0.2.7'' else a, Suc w)),
      ni_host_is_reachable = (\<lambda>h a w. (pn, Suc w))\<rparr>"

definition fsm_at :: "nat \<Rightarrow> nat \<Rightarrow> nat \<Rightarrow> nat ni_objectmodel_fsm" where
  "fsm_at seq acquired updated =
     \<lparr>fsm_event_seq = seq,
      last_event_seq = (\<lambda>e. case e of NI_EVENT_ADDRESS_ACQUIRED \<Rightarrow> acquired
                                 | NI_EVENT_RESOLVER_UPDATED \<Rightarrow> updated
                                 | NI_EVENT_OTHER n \<Rightarrow> 0)\<rparr>"

definition host_req :: "nat \<Rightarrow> bool \<Rightarrow> string \<Rightarrow> (nat, string) ni_fsm_require" where
  "host_req seq valid addr =
     \<lparr>event_seq = seq,
      user_data = \<lparr>hostname = ''example.invalid'', family = 0, address_valid = valid,
                   address = addr\<rparr>\<rparr>"

section \<open>Extensions (src/extension.c)\<close>

subsection \<open>Data and the operating system\<close>

text \<open>The extension descriptor. The expression formats (\<open>xpath_format_t\<close>) are a type
  \<open>'f\<close>; a \<open>NULL\<close> format is \<open>None\<close>.\<close>

record 'f ni_extension =
  name :: string
  ex_type :: nat
  supported_af :: nat
  pid_file_path :: "'f option"
  start_command :: "'f option"
  stop_command :: "'f option"
  environment :: "'f list"

text \<open>The status that \<open>waitpid\<close> stores, and the macros of \<open>sys/wait.h\<close> the code applies
  to it.\<close>

datatype wstatus = W_exited nat | W_signaled nat | W_stopped nat | W_continued

fun WIFEXITED :: "wstatus \<Rightarrow> bool" where
  "WIFEXITED (W_exited c) = True"
| "WIFEXITED _ = False"

fun WEXITSTATUS :: "wstatus \<Rightarrow> nat" where
  "WEXITSTATUS (W_exited c) = c"
| "WEXITSTATUS _ = 0"

fun WIFSTOPPED :: "wstatus \<Rightarrow> bool" where
  "WIFSTOPPED (W_stopped sig) = True"
| "WIFSTOPPED _ = False"

datatype errno = EINTR | ECHILD | EINVAL

text \<open>
  What \<open>extension.c\<close> takes from its surroundings:
  \<^item> \<open>xpath_format_eval\<close>: the value returned and the strings put into the empty result
    array, for a format and a document \<open>'x\<close>;
  \<^item> \<open>signal(SIGCHLD, SIG_DFL)\<close>;
  \<^item> \<open>fork\<close>, as the parent sees it: the pid returned. The child is given the
    environment strings and the command line, which it passes to \<open>putenv\<close> and to
    \<open>/bin/sh -c\<close>; what the child does is part of the world;
  \<^item> \<open>waitpid(pid, &status, 0)\<close>: the value returned, \<open>errno\<close> and the status;
  \<^item> \<open>access(path, F_OK)\<close>.
\<close>

record ('w, 'f, 'x) ext_os =
  xpath_format_eval :: "'f \<Rightarrow> 'x \<Rightarrow> bool \<times> string list"
  signal_SIGCHLD_SIG_DFL :: "'w \<Rightarrow> 'w"
  fork :: "string list \<Rightarrow> string \<Rightarrow> 'w \<Rightarrow> int \<times> 'w"
  waitpid :: "int \<Rightarrow> 'w \<Rightarrow> (int \<times> errno \<times> wstatus) \<times> 'w"
  access_F_OK :: "string \<Rightarrow> 'w \<Rightarrow> int"

text \<open>The state: the world, and the calls made so far, in order.\<close>

datatype 'f ext_event =
  Ev_eval 'f | Ev_signal | Ev_fork "string list" string | Ev_waitpid int | Ev_access string

record ('w, 'f) ext_state =
  ext_world :: 'w
  ext_trace :: "'f ext_event list"

definition do_eval ::
  "('w, 'f, 'x) ext_os \<Rightarrow> 'f \<Rightarrow> 'x \<Rightarrow> ('w, 'f) ext_state
   \<Rightarrow> (bool \<times> string list) \<times> ('w, 'f) ext_state" where
  "do_eval os fmt xml st =
     (xpath_format_eval os fmt xml, st\<lparr>ext_trace := ext_trace st @ [Ev_eval fmt]\<rparr>)"

definition do_signal :: "('w, 'f, 'x) ext_os \<Rightarrow> ('w, 'f) ext_state \<Rightarrow> ('w, 'f) ext_state" where
  "do_signal os st =
     \<lparr>ext_world = signal_SIGCHLD_SIG_DFL os (ext_world st),
      ext_trace = ext_trace st @ [Ev_signal]\<rparr>"

definition do_fork ::
  "('w, 'f, 'x) ext_os \<Rightarrow> string list \<Rightarrow> string \<Rightarrow> ('w, 'f) ext_state
   \<Rightarrow> int \<times> ('w, 'f) ext_state" where
  "do_fork os env command_string st =
     (case fork os env command_string (ext_world st) of
        (pid, w) \<Rightarrow>
          (pid, \<lparr>ext_world = w, ext_trace = ext_trace st @ [Ev_fork env command_string]\<rparr>))"

definition do_waitpid ::
  "('w, 'f, 'x) ext_os \<Rightarrow> int \<Rightarrow> ('w, 'f) ext_state
   \<Rightarrow> (int \<times> errno \<times> wstatus) \<times> ('w, 'f) ext_state" where
  "do_waitpid os pid st =
     (case waitpid os pid (ext_world st) of
        (r, w) \<Rightarrow> (r, \<lparr>ext_world = w, ext_trace = ext_trace st @ [Ev_waitpid pid]\<rparr>))"

definition do_access ::
  "('w, 'f, 'x) ext_os \<Rightarrow> string \<Rightarrow> ('w, 'f) ext_state \<Rightarrow> int \<times> ('w, 'f) ext_state" where
  "do_access os path st =
     (access_F_OK os path (ext_world st), st\<lparr>ext_trace := ext_trace st @ [Ev_access path]\<rparr>)"

subsection \<open>The liveness probe\<close>

text \<open>\<open>ni_extension_active\<close>: 1 when the one path that the format yields exists, 0
  otherwise.\<close>

definition ni_extension_active ::
  "('w, 'f, 'x) ext_os \<Rightarrow> 'f ni_extension \<Rightarrow> string \<Rightarrow> 'x \<Rightarrow> ('w, 'f) ext_state
   \<Rightarrow> int \<times> ('w, 'f) ext_state" where
  "ni_extension_active os ex ifname xml st =
     (case pid_file_path ex of
        None \<Rightarrow> (0, st)
      | Some fmt \<Rightarrow>
          (case do_eval os fmt xml st of
             ((ok, result), st1) \<Rightarrow>
               if \<not> ok \<or> length result \<noteq> 1 then (0, st1)
               else
                 (case do_access os (result ! 0) st1 of
                    (rc, st2) \<Rightarrow> (if rc = 0 then 1 else 0, st2))))"

subsection \<open>Running a command\<close>

text \<open>The loop over \<open>ex->environment\<close>: \<open>None\<close> is the \<open>goto done\<close>; otherwise the strings
  collected in \<open>env\<close>.\<close>

fun expand_environment ::
  "('w, 'f, 'x) ext_os \<Rightarrow> 'f list \<Rightarrow> 'x \<Rightarrow> string list \<Rightarrow> ('w, 'f) ext_state
   \<Rightarrow> string list option \<times> ('w, 'f) ext_state" where
  "expand_environment os [] xml env st = (Some env, st)"
| "expand_environment os (fmt # fmts) xml env st =
     (case do_eval os fmt xml st of
        ((ok, result), st1) \<Rightarrow>
          if \<not> ok \<or> length result > 1 then (None, st1)
          else expand_environment os fmts xml
                 (if length result \<noteq> 0 then env @ [result ! 0] else env) st1)"

text \<open>The \<open>while (1)\<close> loop around \<open>waitpid\<close>. It ends with the status of the child
  (\<open>Some\<close>) or at an error other than \<open>EINTR\<close> (\<open>None\<close>, the \<open>goto done\<close>); as long as
  \<open>waitpid\<close> is interrupted or reports a stopped child it goes on, so the function has
  the value \<open>None\<close> when the loop never ends.\<close>

partial_function (option) wait_for_child ::
  "('w, 'f, 'x) ext_os \<Rightarrow> int \<Rightarrow> ('w, 'f) ext_state
   \<Rightarrow> (wstatus option \<times> ('w, 'f) ext_state) option" where
  "wait_for_child os pid st =
     (case do_waitpid os pid st of
        ((reaped, err, status), st1) \<Rightarrow>
          if reaped < 0 then
            (if err = EINTR then wait_for_child os pid st1 else Some (None, st1))
          else if reaped \<noteq> pid then wait_for_child os pid st1
          else if WIFSTOPPED status then wait_for_child os pid st1
          else Some (Some status, st1))"

declare wait_for_child.simps [code]

text \<open>The classification of the status, from \<open>if (!WIFEXITED(status))\<close> on.\<close>

definition child_verdict ::
  "('w, 'f, 'x) ext_os \<Rightarrow> 'f ni_extension \<Rightarrow> string \<Rightarrow> 'x \<Rightarrow> string \<Rightarrow> wstatus
   \<Rightarrow> ('w, 'f) ext_state \<Rightarrow> int \<times> ('w, 'f) ext_state" where
  "child_verdict os ex ifname xml command_name status st =
     (if \<not> WIFEXITED status then (- 1, st)
      else if WEXITSTATUS status \<noteq> 0 then (- 1, st)
      else if pid_file_path ex \<noteq> None then
        (case ni_extension_active os ex ifname xml st of
           (is_active, st1) \<Rightarrow>
             if command_name = ''start'' \<and> is_active = 0 then (- 1, st1)
             else if command_name = ''stop'' \<and> is_active \<noteq> 0 then (- 1, st1)
             else (0, st1))
      else (0, st))"

text \<open>From \<open>signal(SIGCHLD, SIG_DFL)\<close> to the end. With \<open>pid == 0\<close> the code is the child,
  which executes the shell or ends in \<open>ni_fatal\<close>: it does not return to the caller.\<close>

definition spawn_and_wait ::
  "('w, 'f, 'x) ext_os \<Rightarrow> 'f ni_extension \<Rightarrow> string \<Rightarrow> 'x \<Rightarrow> string \<Rightarrow> string list
   \<Rightarrow> string \<Rightarrow> ('w, 'f) ext_state \<Rightarrow> (int \<times> ('w, 'f) ext_state) option" where
  "spawn_and_wait os ex ifname xml command_name env command_string st =
     (case do_fork os env command_string (do_signal os st) of
        (pid, st1) \<Rightarrow>
          if pid < 0 then Some (- 1, st1)
          else if pid = 0 then None
          else
            (case wait_for_child os pid st1 of
               None \<Rightarrow> None
             | Some (None, st2) \<Rightarrow> Some (- 1, st2)
             | Some (Some status, st2) \<Rightarrow>
                 Some (child_verdict os ex ifname xml command_name status st2)))"

text \<open>\<open>__ni_extension_run\<close>: \<open>Some\<close> of the value returned and the state, \<open>None\<close> when the
  call does not return.\<close>

definition ni_extension_run ::
  "('w, 'f, 'x) ext_os \<Rightarrow> 'f ni_extension \<Rightarrow> string \<Rightarrow> 'x \<Rightarrow> string \<Rightarrow> 'f option
   \<Rightarrow> ('w, 'f) ext_state \<Rightarrow> (int \<times> ('w, 'f) ext_state) option" where
  "ni_extension_run os ex ifname xml command_name command st =
     (case command of
        None \<Rightarrow> Some (0, st)
      | Some cmd \<Rightarrow>
          (case expand_environment os (environment ex) xml [] st of
             (None, st1) \<Rightarrow> Some (- 1, st1)
           | (Some env, st1) \<Rightarrow>
               (case do_eval os cmd xml st1 of
                  ((ok, result), st2) \<Rightarrow>
                    if \<not> ok \<or> length result \<noteq> 1 then Some (- 1, st2)
                    else spawn_and_wait os ex ifname xml command_name env (result ! 0) st2)))"

definition ni_extension_start ::
  "('w, 'f, 'x) ext_os \<Rightarrow> 'f ni_extension \<Rightarrow> string \<Rightarrow> 'x \<Rightarrow> ('w, 'f) ext_state
   \<Rightarrow> (int \<times> ('w, 'f) ext_state) option" where
  "ni_extension_start os ex ifname xml st =
     ni_extension_run os ex ifname xml ''start'' (start_command ex) st"

definition ni_extension_stop ::
  "('w, 'f, 'x) ext_os \<Rightarrow> 'f ni_extension \<Rightarrow> string \<Rightarrow> 'x \<Rightarrow> ('w, 'f) ext_state
   \<Rightarrow> (int \<times> ('w, 'f) ext_state) option" where
  "ni_extension_stop os ex ifname xml st =
     ni_extension_run os ex ifname xml ''stop'' (stop_command ex) st"

subsection \<open>Inputs for the examples\<close>

text \<open>A world with the results that \<open>waitpid\<close> will still deliver and the paths that
  exist; a document that maps a format to its strings (a format it does not hold fails to
  evaluate); an extension with both commands; the state before a run and the state
  after the child of pid 42 has been reaped.\<close>

record proc_world =
  pending :: "(int \<times> errno \<times> wstatus) list"
  files :: "string list"

definition demo_os :: "(proc_world, string, (string \<times> string list) list) ext_os" where
  "demo_os =
     \<lparr>xpath_format_eval =
        (\<lambda>fmt xml. case map_of xml fmt of None \<Rightarrow> (False, []) | Some r \<Rightarrow> (True, r)),
      signal_SIGCHLD_SIG_DFL = (\<lambda>w. w),
      fork = (\<lambda>env cmd w. (42, w)),
      waitpid = (\<lambda>pid w. case pending w of [] \<Rightarrow> ((- 1, ECHILD, W_continued), w)
                           | r # rs \<Rightarrow> (r, w\<lparr>pending := rs\<rparr>)),
      access_F_OK = (\<lambda>p w. if p \<in> set (files w) then 0 else - 1)\<rparr>"

definition dhcp :: "string option \<Rightarrow> string list \<Rightarrow> string ni_extension" where
  "dhcp pidfile envs =
     \<lparr>name = ''dhcp4'', ex_type = 1, supported_af = 1, pid_file_path = pidfile,
      start_command = Some ''start'', stop_command = Some ''stop'', environment = envs\<rparr>"

definition doc :: "(string \<times> string list) list" where
  "doc = [(''pid'', [''/var/run/dhcpcd-eth0.pid'']), (''start'', [''dhcpcd eth0'']),
          (''stop'', [''dhcpcd -k eth0'']), (''e1'', [''IFNAME=eth0'']), (''e2'', []),
          (''e3'', [''A=1'', ''B=2'']), (''none'', []), (''two'', [''a'', ''b''])]"

definition boot :: "string list \<Rightarrow> (proc_world, string) ext_state" where
  "boot fs = \<lparr>ext_world = \<lparr>pending = [(- 1, EINTR, W_continued), (42, EINTR, W_exited 0)],
                           files = fs\<rparr>, ext_trace = []\<rparr>"

definition reaped :: "string list \<Rightarrow> string \<Rightarrow> string \<Rightarrow> (proc_world, string) ext_state" where
  "reaped fs cmd c =
     \<lparr>ext_world = \<lparr>pending = [], files = fs\<rparr>,
      ext_trace = [Ev_eval ''e1'', Ev_eval ''e2'', Ev_eval cmd, Ev_signal,
                   Ev_fork [''IFNAME=eth0''] c, Ev_waitpid 42, Ev_waitpid 42]\<rparr>"

section \<open>Properties of the attribute lists\<close>

subsection \<open>Writes in sequence\<close>

lemma write_seq_append:
  "write_seq os p (as @ bs) s =
     (case write_seq os p as s of (rv, s1) \<Rightarrow> if rv < 0 then (rv, s1) else write_seq os p bs s1)"
  by (induction as arbitrary: s) (auto split: prod.splits)

lemma printf_loop_write_seq:
  "printf_loop os p sign xs s =
     (case write_seq os p (map (\<lambda>x. sign @ x @ ''\<newline>'') xs) s of (rv, s1) \<Rightarrow> (\<not> rv < 0, s1))"
  by (induction xs arbitrary: s) (auto split: prod.splits)

lemma write_seq_rv: "fst (write_seq os p ts s) = 0 \<or> fst (write_seq os p ts s) = - 1"
  by (induction ts arbitrary: s) (auto split: prod.splits)

lemma printf_calls_printf:
  "printf_calls (snd (ni_sysfs_printf os p t s)) = printf_calls s @ [(p, t)]"
  by (simp add: ni_sysfs_printf_def Let_def split: prod.splits bool.splits)

lemma printf_calls_after_writes:
  "printf_calls (after_writes os p ts s) = printf_calls s @ map (Pair p) ts"
  by (induction ts arbitrary: s) (simp_all add: after_writes_def printf_calls_printf)

lemma rc_at_0: "rc_at os p (t # ts) s 0 = fst (ni_sysfs_printf os p t s)"
  by (simp add: rc_at_def after_writes_def)

lemma rc_at_Suc:
  "rc_at os p (t # ts) s (Suc i) = rc_at os p ts (snd (ni_sysfs_printf os p t s)) i"
  by (simp add: rc_at_def after_writes_def)

lemma write_seq_char:
  "\<exists>k\<le>length ts.
     snd (write_seq os p ts s) = after_writes os p (take k ts) s \<and>
     (\<forall>i. Suc i < k \<longrightarrow> 0 \<le> rc_at os p ts s i) \<and>
     (fst (write_seq os p ts s) = 0 \<and> k = length ts \<and> (\<forall>i<k. 0 \<le> rc_at os p ts s i)
      \<or> fst (write_seq os p ts s) = - 1 \<and> 0 < k \<and> rc_at os p ts s (k - 1) < 0)"
proof (induction ts arbitrary: s)
  case Nil
  show ?case by (simp add: after_writes_def)
next
  case (Cons t ts)
  obtain rc s1 where pr: "ni_sysfs_printf os p t s = (rc, s1)" by (cases "ni_sysfs_printf os p t s")
  show ?case
  proof (cases "rc < 0")
    case True
    have "snd (write_seq os p (t # ts) s) = after_writes os p (take 1 (t # ts)) s"
      using pr True by (simp add: after_writes_def)
    moreover have "fst (write_seq os p (t # ts) s) = - 1" using pr True by simp
    moreover have "rc_at os p (t # ts) s (1 - 1) < 0" using pr True by (simp add: rc_at_0)
    ultimately show ?thesis by (intro exI[of _ 1]) simp
  next
    case False
    from Cons.IH[of s1] obtain k where k: "k \<le> length ts"
      "snd (write_seq os p ts s1) = after_writes os p (take k ts) s1"
      "\<forall>i. Suc i < k \<longrightarrow> 0 \<le> rc_at os p ts s1 i"
      "fst (write_seq os p ts s1) = 0 \<and> k = length ts \<and> (\<forall>i<k. 0 \<le> rc_at os p ts s1 i)
       \<or> fst (write_seq os p ts s1) = - 1 \<and> 0 < k \<and> rc_at os p ts s1 (k - 1) < 0"
      by blast
    have ws: "write_seq os p (t # ts) s = write_seq os p ts s1" using pr False by simp
    have s1: "s1 = snd (ni_sysfs_printf os p t s)" using pr by simp
    have a: "snd (write_seq os p (t # ts) s) = after_writes os p (take (Suc k) (t # ts)) s"
      using k(2) ws s1 by (simp add: after_writes_def)
    have rc0: "0 \<le> rc_at os p (t # ts) s 0" using pr False by (simp add: rc_at_0)
    have b: "\<forall>i. Suc i < Suc k \<longrightarrow> 0 \<le> rc_at os p (t # ts) s i"
    proof (intro allI impI)
      fix i assume "Suc i < Suc k"
      then show "0 \<le> rc_at os p (t # ts) s i"
        using rc0 k(3) s1 by (cases i) (simp_all add: rc_at_Suc)
    qed
    have c: "fst (write_seq os p (t # ts) s) = 0 \<and> Suc k = length (t # ts)
               \<and> (\<forall>i<Suc k. 0 \<le> rc_at os p (t # ts) s i)
             \<or> fst (write_seq os p (t # ts) s) = - 1 \<and> 0 < Suc k
               \<and> rc_at os p (t # ts) s (Suc k - 1) < 0"
    proof -
      from k(4) show ?thesis
      proof
        assume h: "fst (write_seq os p ts s1) = 0 \<and> k = length ts \<and> (\<forall>i<k. 0 \<le> rc_at os p ts s1 i)"
        have "\<forall>i<Suc k. 0 \<le> rc_at os p (t # ts) s i"
        proof (intro allI impI)
          fix i assume "i < Suc k"
          then show "0 \<le> rc_at os p (t # ts) s i"
            using rc0 h s1 by (cases i) (simp_all add: rc_at_Suc)
        qed
        with h ws show ?thesis by simp
      next
        assume h: "fst (write_seq os p ts s1) = - 1 \<and> 0 < k \<and> rc_at os p ts s1 (k - 1) < 0"
        then obtain j where j: "k = Suc j" by (cases k) auto
        with h have "rc_at os p (t # ts) s (Suc k - 1) < 0" using s1 by (simp add: rc_at_Suc)
        with h ws show ?thesis by simp
      qed
    qed
    from k(1) a b c show ?thesis by (intro exI[of _ "Suc k"]) simp
  qed
qed

lemma trace_each_None: "trace_each arr is = None \<longleftrightarrow> (\<forall>i\<in>set is. i < length arr)"
  by (induction "is") (auto simp: array_get_def)

lemma trace_block_None:
  "trace_block delete add unchanged = None \<longleftrightarrow> length unchanged \<le> length add"
proof -
  have "trace_each delete [0..<length delete] = None" by (simp add: trace_each_None)
  moreover have "trace_each add [0..<length add] = None" by (simp add: trace_each_None)
  moreover have "trace_each add [0..<length unchanged] = None \<longleftrightarrow> length unchanged \<le> length add"
    by (auto simp: trace_each_None)
  ultimately show ?thesis by (simp add: trace_block_def)
qed

lemma set_list_attr_write_seq:
  assumes rd: "fopen_read os (bonding_pathbuf os ifname attr_name) (world s) = Some content"
    and cm: "comm (read_tokens content) lst = (delete, add, unchanged)"
    and ne: "delete \<noteq> [] \<or> add \<noteq> []"
    and tr: "trace_ifconfig os \<longrightarrow> length unchanged \<le> length add"
  shows "ni_sysfs_bonding_set_list_attr os comm ifname attr_name lst s =
           Inr (write_seq os (bonding_pathbuf os ifname attr_name) (attr_ops delete add) s)"
proof -
  have tb: "(if trace_ifconfig os then trace_block delete add unchanged else None) = None"
    using tr by (simp add: trace_block_None)
  obtain rv1 s1 where w1: "write_seq os (bonding_pathbuf os ifname attr_name)
      (map (\<lambda>x. ''-'' @ x @ ''\<newline>'') delete) s = (rv1, s1)"
    by (cases "write_seq os (bonding_pathbuf os ifname attr_name)
      (map (\<lambda>x. ''-'' @ x @ ''\<newline>'') delete) s")
  have rv1: "rv1 = 0 \<or> rv1 = - 1"
    using write_seq_rv[of os "bonding_pathbuf os ifname attr_name"
      "map (\<lambda>x. ''-'' @ x @ ''\<newline>'') delete" s] w1 by simp
  obtain rv2 s2 where w2: "write_seq os (bonding_pathbuf os ifname attr_name)
      (map (\<lambda>x. ''+'' @ x @ ''\<newline>'') add) s1 = (rv2, s2)"
    by (cases "write_seq os (bonding_pathbuf os ifname attr_name)
      (map (\<lambda>x. ''+'' @ x @ ''\<newline>'') add) s1")
  have rv2: "rv2 = 0 \<or> rv2 = - 1"
    using write_seq_rv[of os "bonding_pathbuf os ifname attr_name"
      "map (\<lambda>x. ''+'' @ x @ ''\<newline>'') add" s1] w2 by simp
  have ne': "\<not> (add = [] \<and> delete = [])" using ne by auto
  have lhs: "ni_sysfs_bonding_set_list_attr os comm ifname attr_name lst s =
     (if rv1 < 0 then Inr (- 1, s1) else if rv2 < 0 then Inr (- 1, s2) else Inr (0, s2))"
    using rd cm ne' tb w1 w2
    by (auto simp: ni_sysfs_bonding_set_list_attr_def ni_sysfs_read_list_def Let_def
        printf_loop_write_seq)
  have rhs: "write_seq os (bonding_pathbuf os ifname attr_name) (attr_ops delete add) s =
     (if rv1 < 0 then (rv1, s1) else (rv2, s2))"
    using w1 w2 by (simp add: attr_ops_def write_seq_append)
  show ?thesis using lhs rhs rv1 rv2 by auto
qed

subsection \<open>What the examples read\<close>

lemma read_tokens_ethN: "read_tokens ''ethN\<newline>'' = [''ethN'']"
  by code_simp

lemma read_tokens_eth0_eth1: "read_tokens ''eth0 eth1\<newline>'' = [''eth0'', ''eth1'']"
  by code_simp

subsection \<open>The partition\<close>

text \<open>
  Claim C1. For every pair of string sequences (current, desired), the three parts
  computed by the comparison are such that to-remove and to-add have no element in
  common, to-remove and unchanged together hold exactly the elements of current, to-add
  and unchanged together hold exactly the elements of desired, and each part keeps the
  relative order of the sequence it is drawn from (to-remove and unchanged from current,
  to-add from desired).
\<close>

theorem ni_string_array_comm_partition:
  "(case ni_string_array_comm current desired of
      (to_remove, to_add, unchanged) \<Rightarrow>
        set to_remove \<inter> set to_add = {} \<and>
        set to_remove \<union> set unchanged = set current \<and>
        set to_add \<union> set unchanged = set desired \<and>
        subseq to_remove current \<and> subseq to_add desired \<and> subseq unchanged current)"
  by (auto simp: ni_string_array_comm_def)

subsection \<open>An empty diff\<close>

text \<open>
  Claim C6. When the attribute file can be read and the comparison finds nothing to
  remove and nothing to add, \<open>ni_sysfs_bonding_set_list_attr\<close> returns 0 and leaves the
  state as it was: the file system is untouched and no call of \<open>__ni_sysfs_printf\<close> is
  made. This holds for any comparison function. In particular, with the comparison of
  the spec, it holds when the desired list and the list read have the same elements.
\<close>

theorem set_list_attr_empty_diff:
  assumes rd: "fopen_read os (bonding_pathbuf os ifname attr_name) (world s) = Some content"
  shows "(fst (comm (read_tokens content) lst) = [] \<and>
          fst (snd (comm (read_tokens content) lst)) = [] \<longrightarrow>
            ni_sysfs_bonding_set_list_attr os comm ifname attr_name lst s = Inr (0, s)) \<and>
         (set lst = set (read_tokens content) \<longrightarrow>
            ni_sysfs_bonding_set_list_attr os ni_string_array_comm ifname attr_name lst s
              = Inr (0, s))"
proof (intro conjI impI)
  assume "fst (comm (read_tokens content) lst) = [] \<and>
          fst (snd (comm (read_tokens content) lst)) = []"
  moreover obtain d a u where "comm (read_tokens content) lst = (d, a, u)"
    by (cases "comm (read_tokens content) lst")
  ultimately show "ni_sysfs_bonding_set_list_attr os comm ifname attr_name lst s = Inr (0, s)"
    using rd
    by (simp add: ni_sysfs_bonding_set_list_attr_def ni_sysfs_read_list_def Let_def)
next
  assume eq: "set lst = set (read_tokens content)"
  have "filter (\<lambda>x. x \<notin> set lst) (read_tokens content) = []"
    using eq by (simp add: filter_empty_conv)
  moreover have "filter (\<lambda>x. x \<notin> set (read_tokens content)) lst = []"
    using eq by (simp add: filter_empty_conv)
  ultimately show "ni_sysfs_bonding_set_list_attr os ni_string_array_comm ifname attr_name lst s
      = Inr (0, s)"
    using rd
    by (simp add: ni_sysfs_bonding_set_list_attr_def ni_sysfs_read_list_def Let_def
        ni_string_array_comm_def)
qed

text \<open>Example 1 of the spec: the file holds \<open>ethN\<close>, the desired list is \<open>[ethN]\<close>.\<close>

theorem set_list_attr_empty_diff_witness:
  "fopen_read (bond_os ''ethN\<newline>'' False)
     (bonding_pathbuf (bond_os ''ethN\<newline>'' False) ''bond0'' ''slaves'')
     (world \<lparr>world = 3, printf_calls = []\<rparr>) = Some ''ethN\<newline>'' \<and>
   fst (ni_string_array_comm (read_tokens ''ethN\<newline>'') [''ethN'']) = [] \<and>
   fst (snd (ni_string_array_comm (read_tokens ''ethN\<newline>'') [''ethN''])) = [] \<and>
   set [''ethN''] = set (read_tokens ''ethN\<newline>'') \<and>
   ni_sysfs_bonding_set_list_attr (bond_os ''ethN\<newline>'' False) ni_string_array_comm
     ''bond0'' ''slaves'' [''ethN''] \<lparr>world = 3, printf_calls = []\<rparr>
     = Inr (0, \<lparr>world = 3, printf_calls = []\<rparr>)"
  using set_list_attr_empty_diff[of "bond_os ''ethN\<newline>'' False" "''bond0''" "''slaves''"
      "\<lparr>world = 3, printf_calls = []\<rparr>" "''ethN\<newline>''" ni_string_array_comm "[''ethN'']"]
  by (simp add: read_tokens_ethN ni_string_array_comm_def bond_os_def)

subsection \<open>A diff that is not empty\<close>

text \<open>
  When the trace block does not read past the end of \<open>add\<close> (tracing is off, or
  \<open>unchanged\<close> is not longer than \<open>add\<close>), the function is the sequence of writes of the
  spec: the removals in their order, then the additions in theirs. Of these, the first
  \<open>k\<close> are issued and no other; the state is the one left by these \<open>k\<close> writes, nothing is
  undone; all but the last of them returned a value that is not negative; and either
  all were issued, all succeeded and the result is 0, or the last one issued returned a
  negative value and the result is \<open>-1\<close>.
\<close>

lemma set_list_attr_applies_in_order:
  assumes rd: "fopen_read os (bonding_pathbuf os ifname attr_name) (world s) = Some content"
    and cm: "comm (read_tokens content) lst = (delete, add, unchanged)"
    and ne: "delete \<noteq> [] \<or> add \<noteq> []"
    and tr: "trace_ifconfig os \<longrightarrow> length unchanged \<le> length add"
  shows "\<exists>rv s' k.
     ni_sysfs_bonding_set_list_attr os comm ifname attr_name lst s = Inr (rv, s') \<and>
     k \<le> length (attr_ops delete add) \<and>
     s' = after_writes os (bonding_pathbuf os ifname attr_name) (take k (attr_ops delete add)) s \<and>
     printf_calls s' = printf_calls s @
        map (Pair (bonding_pathbuf os ifname attr_name)) (take k (attr_ops delete add)) \<and>
     (\<forall>i. Suc i < k \<longrightarrow>
        0 \<le> rc_at os (bonding_pathbuf os ifname attr_name) (attr_ops delete add) s i) \<and>
     (rv = 0 \<and> k = length (attr_ops delete add) \<and>
        (\<forall>i<k. 0 \<le> rc_at os (bonding_pathbuf os ifname attr_name) (attr_ops delete add) s i)
      \<or> rv = - 1 \<and> 0 < k \<and>
        rc_at os (bonding_pathbuf os ifname attr_name) (attr_ops delete add) s (k - 1) < 0)"
proof -
  let ?p = "bonding_pathbuf os ifname attr_name"
  let ?ops = "attr_ops delete add"
  have eq: "ni_sysfs_bonding_set_list_attr os comm ifname attr_name lst s =
              Inr (write_seq os ?p ?ops s)"
    using rd cm ne tr by (rule set_list_attr_write_seq)
  obtain k where k: "k \<le> length ?ops"
    "snd (write_seq os ?p ?ops s) = after_writes os ?p (take k ?ops) s"
    "\<forall>i. Suc i < k \<longrightarrow> 0 \<le> rc_at os ?p ?ops s i"
    "fst (write_seq os ?p ?ops s) = 0 \<and> k = length ?ops \<and> (\<forall>i<k. 0 \<le> rc_at os ?p ?ops s i)
     \<or> fst (write_seq os ?p ?ops s) = - 1 \<and> 0 < k \<and> rc_at os ?p ?ops s (k - 1) < 0"
    using write_seq_char[of ?ops os ?p s] by blast
  have pc: "printf_calls (snd (write_seq os ?p ?ops s)) =
              printf_calls s @ map (Pair ?p) (take k ?ops)"
    using k(2) by (simp add: printf_calls_after_writes)
  have "ni_sysfs_bonding_set_list_attr os comm ifname attr_name lst s =
          Inr (fst (write_seq os ?p ?ops s), snd (write_seq os ?p ?ops s))"
    using eq by simp
  with k pc show ?thesis by blast
qed

text \<open>Example 2 of the spec: the file holds \<open>eth0 eth1\<close>, the desired list is
  \<open>[eth1, eth2]\<close>; \<open>-eth0\<close> is written, then \<open>+eth2\<close>.\<close>

lemma set_list_attr_example_2:
  "ni_sysfs_bonding_set_list_attr (bond_os ''eth0 eth1\<newline>'' False) ni_string_array_comm
     ''bond0'' ''slaves'' [''eth1'', ''eth2''] \<lparr>world = 3, printf_calls = []\<rparr>
     = Inr (0, \<lparr>world = 1, printf_calls =
         [(''/sys/class/net/bond0/bonding/slaves'', ''-eth0\<newline>''),
          (''/sys/class/net/bond0/bonding/slaves'', ''+eth2\<newline>'')]\<rparr>)"
  by (simp add: ni_sysfs_bonding_set_list_attr_def ni_sysfs_read_list_def Let_def
      read_tokens_eth0_eth1 ni_string_array_comm_def bond_os_def trace_block_def array_get_def
      ni_sysfs_printf_def bonding_pathbuf_def)

text \<open>The same diff when only one write succeeds: the removal stays applied, the failed
  addition is the last write, the result is \<open>-1\<close>.\<close>

lemma set_list_attr_partial_failure:
  "ni_sysfs_bonding_set_list_attr (bond_os ''eth0 eth1\<newline>'' False) ni_string_array_comm
     ''bond0'' ''slaves'' [''eth1'', ''eth2''] \<lparr>world = 1, printf_calls = []\<rparr>
     = Inr (- 1, \<lparr>world = 0, printf_calls =
         [(''/sys/class/net/bond0/bonding/slaves'', ''-eth0\<newline>''),
          (''/sys/class/net/bond0/bonding/slaves'', ''+eth2\<newline>'')]\<rparr>)"
  by (simp add: ni_sysfs_bonding_set_list_attr_def ni_sysfs_read_list_def Let_def
      read_tokens_eth0_eth1 ni_string_array_comm_def bond_os_def trace_block_def array_get_def
      ni_sysfs_printf_def bonding_pathbuf_def)

text \<open>
  Claim C4. For every reconciliation with a diff that is not empty, all removals are
  applied first, in their order, then all additions, in theirs; the first failing write
  ends the reconciliation with failure and nothing is rolled back. The code does not do
  this on every input: with \<open>NI_TRACE_IFCONFIG\<close> set in \<open>ni_debug\<close>, the loop that traces
  the unchanged elements runs to \<open>unchanged.count\<close> and reads \<open>add.data[i]\<close>. Here the file
  holds \<open>eth0 eth1\<close> and the desired list is \<open>[eth1]\<close>: \<open>eth0\<close> is to be removed, nothing is
  to be added, \<open>eth1\<close> is unchanged, and the read of \<open>add.data[0]\<close> leaves the empty array
  before any write is issued.
\<close>

theorem set_list_attr_trace_reads_past_add:
  "ni_sysfs_bonding_set_list_attr (bond_os ''eth0 eth1\<newline>'' True) ni_string_array_comm
     ''bond0'' ''slaves'' [''eth1''] \<lparr>world = 3, printf_calls = []\<rparr>
     = Inl (Read_past_end 0 0)"
  by (simp add: ni_sysfs_bonding_set_list_attr_def ni_sysfs_read_list_def Let_def
      read_tokens_eth0_eth1 ni_string_array_comm_def bond_os_def trace_block_def array_get_def)

section \<open>Properties of the reachability check\<close>

subsection \<open>The skip and the calls made\<close>

lemma check_reachable_skip:
  "event_seq req = last_event_seq fsm NI_EVENT_ADDRESS_ACQUIRED \<Longrightarrow>
     ni_fsm_require_check_reachable env fsm req st = (False, req, st)"
  by (simp add: ni_fsm_require_check_reachable_def)

lemma check_reachable_event_seq:
  "event_seq (fst (snd (ni_fsm_require_check_reachable env fsm req st))) =
     (if event_seq req = last_event_seq fsm NI_EVENT_ADDRESS_ACQUIRED then event_seq req
      else fsm_event_seq fsm)"
  by (simp add: ni_fsm_require_check_reachable_def check_host_def Let_def split: prod.splits)

lemma net_calls_call_resolve:
  "net_calls (snd (snd (call_resolve env check st))) =
     net_calls st @ [Resolve_call (hostname check) (family check) 1]"
  by (simp add: call_resolve_def split: prod.splits)

lemma net_calls_check_host:
  "\<exists>rest. net_calls (snd (snd (check_host env req check st))) = net_calls st @ rest"
  by (simp add: check_host_def call_reachable_def Let_def split: prod.splits)

subsection \<open>A resolver update\<close>

text \<open>
  Claim C2, as stated, at one input: the cached address is valid, the resolver was
  updated (sequence 7) after the requirement was last evaluated (sequence 5), and the
  stored sequence equals that of the last address acquired (5). The check returns false
  and leaves the requirement and the network as they were: the cached address is still
  valid and no resolution was attempted.
\<close>

theorem skip_keeps_cached_address:
  "address_valid (user_data (host_req 5 True ''192.0.2.1'')) \<and>
   event_seq (host_req 5 True ''192.0.2.1'') < last_event_seq (fsm_at 7 5 7) NI_EVENT_RESOLVER_UPDATED \<and>
   ni_fsm_require_check_reachable (fixed_env 1 1) (fsm_at 7 5 7) (host_req 5 True ''192.0.2.1'')
     \<lparr>net_world = 0, net_calls = []\<rparr>
   = (False, host_req 5 True ''192.0.2.1'', \<lparr>net_world = 0, net_calls = []\<rparr>)"
  by (simp add: ni_fsm_require_check_reachable_def host_req_def fsm_at_def)

text \<open>
  Claim C2, amended. A call under the skip rule (the stored sequence equals that of the
  last address acquired) returns false and changes nothing, so the cached address stays
  as it is. A call that is not under the skip rule, with a resolver update after the
  last evaluation, discards the cached address: it behaves as on the requirement whose
  address is marked invalid, its first call is the resolution of the host name, and the
  address is valid afterwards exactly when that resolution returned a positive count.
\<close>

theorem resolver_update_forces_lookup:
  "(event_seq req = last_event_seq fsm NI_EVENT_ADDRESS_ACQUIRED \<longrightarrow>
      ni_fsm_require_check_reachable env fsm req st = (False, req, st)) \<and>
   (event_seq req \<noteq> last_event_seq fsm NI_EVENT_ADDRESS_ACQUIRED \<and>
    event_seq req < last_event_seq fsm NI_EVENT_RESOLVER_UPDATED \<longrightarrow>
      ni_fsm_require_check_reachable env fsm req st =
        ni_fsm_require_check_reachable env fsm
          (req\<lparr>user_data := (user_data req)\<lparr>address_valid := False\<rparr>\<rparr>) st \<and>
      (\<exists>rest. net_calls (snd (snd (ni_fsm_require_check_reachable env fsm req st))) =
         net_calls st @
           Resolve_call (hostname (user_data req)) (family (user_data req)) 1 # rest) \<and>
      address_valid (user_data (fst (snd (ni_fsm_require_check_reachable env fsm req st)))) =
        (0 < fst (ni_resolve_hostname_timed env (hostname (user_data req))
                    (family (user_data req)) (address (user_data req)) 1 (net_world st))))"
proof (intro conjI impI)
  assume "event_seq req = last_event_seq fsm NI_EVENT_ADDRESS_ACQUIRED"
  then show "ni_fsm_require_check_reachable env fsm req st = (False, req, st)"
    by (rule check_reachable_skip)
next
  assume h: "event_seq req \<noteq> last_event_seq fsm NI_EVENT_ADDRESS_ACQUIRED \<and>
    event_seq req < last_event_seq fsm NI_EVENT_RESOLVER_UPDATED"
  then show "ni_fsm_require_check_reachable env fsm req st =
        ni_fsm_require_check_reachable env fsm
          (req\<lparr>user_data := (user_data req)\<lparr>address_valid := False\<rparr>\<rparr>) st"
    by (simp add: ni_fsm_require_check_reachable_def stale_address_def Let_def)
next
  assume h: "event_seq req \<noteq> last_event_seq fsm NI_EVENT_ADDRESS_ACQUIRED \<and>
    event_seq req < last_event_seq fsm NI_EVENT_RESOLVER_UPDATED"
  let ?c = "(user_data req)\<lparr>address_valid := False\<rparr>"
  obtain n c2 st1 where r: "call_resolve env ?c st = (n, c2, st1)"
    by (cases "call_resolve env ?c st")
  have calls: "net_calls st1 = net_calls st @ [Resolve_call (hostname (user_data req)) (family (user_data req)) 1]"
    using net_calls_call_resolve[of env ?c st] r by simp
  show "\<exists>rest. net_calls (snd (snd (ni_fsm_require_check_reachable env fsm req st))) =
         net_calls st @
           Resolve_call (hostname (user_data req)) (family (user_data req)) 1 # rest"
  proof (cases "n \<le> 0")
    case True
    then show ?thesis using h r calls
      by (simp add: ni_fsm_require_check_reachable_def stale_address_def Let_def)
  next
    case False
    obtain rest where "net_calls (snd (snd (check_host env
        (req\<lparr>event_seq := fsm_event_seq fsm, user_data := ?c\<rparr>) c2 st1))) = net_calls st1 @ rest"
      using net_calls_check_host by blast
    then show ?thesis using False h r calls
      by (simp add: ni_fsm_require_check_reachable_def stale_address_def Let_def)
  qed
next
  assume h: "event_seq req \<noteq> last_event_seq fsm NI_EVENT_ADDRESS_ACQUIRED \<and>
    event_seq req < last_event_seq fsm NI_EVENT_RESOLVER_UPDATED"
  then show "address_valid (user_data (fst (snd (ni_fsm_require_check_reachable env fsm req st)))) =
        (0 < fst (ni_resolve_hostname_timed env (hostname (user_data req))
                    (family (user_data req)) (address (user_data req)) 1 (net_world st)))"
    by (auto simp: ni_fsm_require_check_reachable_def stale_address_def Let_def
        call_resolve_def check_host_def split: prod.splits)
qed

text \<open>Both cases at concrete inputs: stored sequence 5 (skip) and 3 (no skip), last
  address acquired at 5, resolver updated at 7.\<close>

theorem resolver_update_forces_lookup_witness:
  "event_seq (host_req 5 True ''192.0.2.1'') = last_event_seq (fsm_at 7 5 7) NI_EVENT_ADDRESS_ACQUIRED \<and>
   ni_fsm_require_check_reachable (fixed_env 1 1) (fsm_at 7 5 7) (host_req 5 True ''192.0.2.1'')
     \<lparr>net_world = 0, net_calls = []\<rparr>
   = (False, host_req 5 True ''192.0.2.1'', \<lparr>net_world = 0, net_calls = []\<rparr>) \<and>
   event_seq (host_req 3 True ''192.0.2.1'') \<noteq> last_event_seq (fsm_at 7 5 7) NI_EVENT_ADDRESS_ACQUIRED \<and>
   event_seq (host_req 3 True ''192.0.2.1'') < last_event_seq (fsm_at 7 5 7) NI_EVENT_RESOLVER_UPDATED \<and>
   ni_fsm_require_check_reachable (fixed_env 1 1) (fsm_at 7 5 7) (host_req 3 True ''192.0.2.1'')
     \<lparr>net_world = 0, net_calls = []\<rparr>
   = ni_fsm_require_check_reachable (fixed_env 1 1) (fsm_at 7 5 7)
       ((host_req 3 True ''192.0.2.1'')
          \<lparr>user_data := (user_data (host_req 3 True ''192.0.2.1''))\<lparr>address_valid := False\<rparr>\<rparr>)
       \<lparr>net_world = 0, net_calls = []\<rparr>"
proof -
  have a: "event_seq (host_req 5 True ''192.0.2.1'') =
      last_event_seq (fsm_at 7 5 7) NI_EVENT_ADDRESS_ACQUIRED"
    by (simp add: host_req_def fsm_at_def)
  have b: "event_seq (host_req 3 True ''192.0.2.1'') \<noteq>
      last_event_seq (fsm_at 7 5 7) NI_EVENT_ADDRESS_ACQUIRED"
    by (simp add: host_req_def fsm_at_def)
  have c: "event_seq (host_req 3 True ''192.0.2.1'') <
      last_event_seq (fsm_at 7 5 7) NI_EVENT_RESOLVER_UPDATED"
    by (simp add: host_req_def fsm_at_def)
  show ?thesis
    using resolver_update_forces_lookup[of "host_req 5 True ''192.0.2.1''" "fsm_at 7 5 7"
        "fixed_env 1 1" "\<lparr>net_world = 0, net_calls = []\<rparr>"]
      resolver_update_forces_lookup[of "host_req 3 True ''192.0.2.1''" "fsm_at 7 5 7"
        "fixed_env 1 1" "\<lparr>net_world = 0, net_calls = []\<rparr>"]
      a b c
    by blast
qed

subsection \<open>Two evaluations in a row\<close>

text \<open>
  Claim C5, as stated, at two inputs, each with the same event counters for both
  evaluations. First: the global sequence equals that of the last address acquired (5);
  the first evaluation resolves, probes and returns true, the second is skipped and
  returns false. Second: the global sequence (7) is past the last address acquired (5)
  and the resolver fails; the first evaluation stores 7, so the second is not skipped
  and calls the resolver again.
\<close>

theorem consecutive_evaluations_differ:
  "ni_fsm_require_check_reachable (fixed_env 1 1) (fsm_at 5 5 0) (host_req 0 False ''192.0.2.1'')
     \<lparr>net_world = 0, net_calls = []\<rparr>
   = (True, host_req 5 True ''192.0.2.7'',
      \<lparr>net_world = 2, net_calls = [Resolve_call ''example.invalid'' 0 1,
                                    Reachable_call ''example.invalid'' ''192.0.2.7'']\<rparr>) \<and>
   ni_fsm_require_check_reachable (fixed_env 1 1) (fsm_at 5 5 0) (host_req 5 True ''192.0.2.7'')
     \<lparr>net_world = 2, net_calls = [Resolve_call ''example.invalid'' 0 1,
                                   Reachable_call ''example.invalid'' ''192.0.2.7'']\<rparr>
   = (False, host_req 5 True ''192.0.2.7'',
      \<lparr>net_world = 2, net_calls = [Resolve_call ''example.invalid'' 0 1,
                                    Reachable_call ''example.invalid'' ''192.0.2.7'']\<rparr>) \<and>
   ni_fsm_require_check_reachable (fixed_env 0 0) (fsm_at 7 5 0) (host_req 0 False ''192.0.2.1'')
     \<lparr>net_world = 0, net_calls = []\<rparr>
   = (False, host_req 7 False ''192.0.2.1'',
      \<lparr>net_world = 1, net_calls = [Resolve_call ''example.invalid'' 0 1]\<rparr>) \<and>
   ni_fsm_require_check_reachable (fixed_env 0 0) (fsm_at 7 5 0) (host_req 7 False ''192.0.2.1'')
     \<lparr>net_world = 1, net_calls = [Resolve_call ''example.invalid'' 0 1]\<rparr>
   = (False, host_req 7 False ''192.0.2.1'',
      \<lparr>net_world = 2, net_calls = [Resolve_call ''example.invalid'' 0 1,
                                    Resolve_call ''example.invalid'' 0 1]\<rparr>)"
  by (simp add: ni_fsm_require_check_reachable_def stale_address_def call_resolve_def
      call_reachable_def check_host_def host_req_def fsm_at_def fixed_env_def Let_def)

text \<open>
  Claim C5, amended. If the stored sequence equals that of the last address acquired,
  the check is skipped: it returns false, changes nothing and calls neither the
  resolver nor the prober. Of two evaluations in a row under the same event counters,
  the second is such a skip when the first was one, or when the global sequence equals
  that of the last address acquired; it then repeats the outcome of the first if that
  was false.
\<close>

theorem skipped_check_repeats_false:
  "(event_seq req = last_event_seq fsm NI_EVENT_ADDRESS_ACQUIRED \<longrightarrow>
      ni_fsm_require_check_reachable env fsm req st = (False, req, st)) \<and>
   (event_seq req = last_event_seq fsm NI_EVENT_ADDRESS_ACQUIRED \<or>
    fsm_event_seq fsm = last_event_seq fsm NI_EVENT_ADDRESS_ACQUIRED \<longrightarrow>
      (case ni_fsm_require_check_reachable env fsm req st of
         (b1, req1, st1) \<Rightarrow>
           ni_fsm_require_check_reachable env fsm req1 st1 = (False, req1, st1) \<and>
           (\<not> b1 \<longrightarrow> fst (ni_fsm_require_check_reachable env fsm req1 st1) = b1)))"
proof (intro conjI impI)
  assume "event_seq req = last_event_seq fsm NI_EVENT_ADDRESS_ACQUIRED"
  then show "ni_fsm_require_check_reachable env fsm req st = (False, req, st)"
    by (rule check_reachable_skip)
next
  assume h: "event_seq req = last_event_seq fsm NI_EVENT_ADDRESS_ACQUIRED \<or>
    fsm_event_seq fsm = last_event_seq fsm NI_EVENT_ADDRESS_ACQUIRED"
  obtain b1 req1 st1 where r: "ni_fsm_require_check_reachable env fsm req st = (b1, req1, st1)"
    by (cases "ni_fsm_require_check_reachable env fsm req st")
  have "event_seq req1 = last_event_seq fsm NI_EVENT_ADDRESS_ACQUIRED"
    using check_reachable_event_seq[of env fsm req st] r h by (auto split: if_splits)
  then have "ni_fsm_require_check_reachable env fsm req1 st1 = (False, req1, st1)"
    by (rule check_reachable_skip)
  then show "case ni_fsm_require_check_reachable env fsm req st of
         (b1, req1, st1) \<Rightarrow>
           ni_fsm_require_check_reachable env fsm req1 st1 = (False, req1, st1) \<and>
           (\<not> b1 \<longrightarrow> fst (ni_fsm_require_check_reachable env fsm req1 st1) = b1)"
    using r by simp
qed

text \<open>Both cases at concrete inputs: a skipped first evaluation, and a first evaluation
  that fails to resolve while the global sequence is that of the last address acquired.\<close>

theorem skipped_check_repeats_false_witness:
  "event_seq (host_req 5 True ''192.0.2.1'') = last_event_seq (fsm_at 7 5 7) NI_EVENT_ADDRESS_ACQUIRED \<and>
   ni_fsm_require_check_reachable (fixed_env 1 1) (fsm_at 7 5 7) (host_req 5 True ''192.0.2.1'')
     \<lparr>net_world = 0, net_calls = []\<rparr>
   = (False, host_req 5 True ''192.0.2.1'', \<lparr>net_world = 0, net_calls = []\<rparr>) \<and>
   fsm_event_seq (fsm_at 5 5 0) = last_event_seq (fsm_at 5 5 0) NI_EVENT_ADDRESS_ACQUIRED \<and>
   ni_fsm_require_check_reachable (fixed_env 0 0) (fsm_at 5 5 0) (host_req 0 False ''192.0.2.1'')
     \<lparr>net_world = 0, net_calls = []\<rparr>
   = (False, host_req 5 False ''192.0.2.1'',
      \<lparr>net_world = 1, net_calls = [Resolve_call ''example.invalid'' 0 1]\<rparr>) \<and>
   ni_fsm_require_check_reachable (fixed_env 0 0) (fsm_at 5 5 0) (host_req 5 False ''192.0.2.1'')
     \<lparr>net_world = 1, net_calls = [Resolve_call ''example.invalid'' 0 1]\<rparr>
   = (False, host_req 5 False ''192.0.2.1'',
      \<lparr>net_world = 1, net_calls = [Resolve_call ''example.invalid'' 0 1]\<rparr>)"
proof -
  have first: "ni_fsm_require_check_reachable (fixed_env 0 0) (fsm_at 5 5 0)
      (host_req 0 False ''192.0.2.1'') \<lparr>net_world = 0, net_calls = []\<rparr>
    = (False, host_req 5 False ''192.0.2.1'',
       \<lparr>net_world = 1, net_calls = [Resolve_call ''example.invalid'' 0 1]\<rparr>)"
    by (simp add: ni_fsm_require_check_reachable_def stale_address_def call_resolve_def
        host_req_def fsm_at_def fixed_env_def Let_def)
  have a: "event_seq (host_req 5 True ''192.0.2.1'') =
      last_event_seq (fsm_at 7 5 7) NI_EVENT_ADDRESS_ACQUIRED"
    by (simp add: host_req_def fsm_at_def)
  have b: "fsm_event_seq (fsm_at 5 5 0) = last_event_seq (fsm_at 5 5 0) NI_EVENT_ADDRESS_ACQUIRED"
    by (simp add: fsm_at_def)
  show ?thesis
    using skipped_check_repeats_false[of "host_req 5 True ''192.0.2.1''" "fsm_at 7 5 7"
        "fixed_env 1 1" "\<lparr>net_world = 0, net_calls = []\<rparr>"]
      skipped_check_repeats_false[of "host_req 0 False ''192.0.2.1''" "fsm_at 5 5 0"
        "fixed_env 0 0" "\<lparr>net_world = 0, net_calls = []\<rparr>"]
      a b first
    by simp
qed

subsection \<open>Failing closed\<close>

lemma check_host_probe_fails:
  "fst (call_reachable env (check\<lparr>address_valid := True\<rparr>) st) \<le> 0 \<Longrightarrow>
     fst (check_host env req check st) = False"
  by (auto simp: check_host_def Let_def split: prod.splits)

lemma unresolvable_stays_unsatisfied:
  assumes nores: "\<forall>h f a t w. fst (ni_resolve_hostname_timed env h f a t w) \<le> 0"
    and inv: "\<not> address_valid (user_data req)"
  shows "fst (ni_fsm_require_check_reachable env fsm req st) = False \<and>
         \<not> address_valid (user_data (fst (snd (ni_fsm_require_check_reachable env fsm req st))))"
proof (cases "event_seq req = last_event_seq fsm NI_EVENT_ADDRESS_ACQUIRED")
  case True
  then show ?thesis using inv by (simp add: check_reachable_skip)
next
  case False
  have st: "\<not> address_valid (stale_address fsm req)"
    using inv by (simp add: stale_address_def)
  obtain n c2 st1 where r: "call_resolve env (stale_address fsm req) st = (n, c2, st1)"
    by (cases "call_resolve env (stale_address fsm req) st")
  have "fst (ni_resolve_hostname_timed env (hostname (stale_address fsm req))
      (family (stale_address fsm req)) (address (stale_address fsm req)) 1 (net_world st)) \<le> 0"
    using nores by blast
  then have "n \<le> 0" using r
    by (auto simp: call_resolve_def split: prod.splits)
  moreover have "\<not> address_valid c2" using r st
    by (auto simp: call_resolve_def split: prod.splits)
  ultimately show ?thesis using False st r
    by (simp add: ni_fsm_require_check_reachable_def Let_def)
qed

lemma unresolvable_rounds:
  assumes nores: "\<forall>h f a t w. fst (ni_resolve_hostname_timed env h f a t w) \<le> 0"
  shows "\<not> address_valid (user_data req) \<Longrightarrow>
           \<forall>b\<in>set (evaluate_rounds env fsms req st). \<not> b"
proof (induction fsms arbitrary: req st)
  case Nil
  show ?case by simp
next
  case (Cons fsm fsms)
  obtain b req1 st1 where r: "ni_fsm_require_check_reachable env fsm req st = (b, req1, st1)"
    by (cases "ni_fsm_require_check_reachable env fsm req st")
  from unresolvable_stays_unsatisfied[OF nores Cons.prems, of fsm st] r
  have "\<not> b" and "\<not> address_valid (user_data req1)" by simp_all
  with Cons.IH[of req1 st1] r show ?case by simp
qed

text \<open>
  Claim C8. The check has a boolean value on every input; the code has no exit other
  than its \<open>return\<close> statements. Whenever a step fails the value is false: when the
  resolution is attempted and returns a count of zero or less; when the resolution
  succeeds and the probe returns a count of zero or less; when the cached address is
  used and the probe returns a count of zero or less. And for a host whose resolution
  always fails and whose address is not cached, every evaluation of any sequence of
  evaluations returns false, whatever the event counters are at each one.
\<close>

theorem check_reachable_fails_closed:
  "(event_seq req \<noteq> last_event_seq fsm NI_EVENT_ADDRESS_ACQUIRED \<and>
    \<not> address_valid (stale_address fsm req) \<and>
    fst (call_resolve env (stale_address fsm req) st) \<le> 0 \<longrightarrow>
      fst (ni_fsm_require_check_reachable env fsm req st) = False) \<and>
   (event_seq req \<noteq> last_event_seq fsm NI_EVENT_ADDRESS_ACQUIRED \<and>
    \<not> address_valid (stale_address fsm req) \<and>
    0 < fst (call_resolve env (stale_address fsm req) st) \<and>
    fst (call_reachable env
           ((fst (snd (call_resolve env (stale_address fsm req) st)))\<lparr>address_valid := True\<rparr>)
           (snd (snd (call_resolve env (stale_address fsm req) st)))) \<le> 0 \<longrightarrow>
      fst (ni_fsm_require_check_reachable env fsm req st) = False) \<and>
   (event_seq req \<noteq> last_event_seq fsm NI_EVENT_ADDRESS_ACQUIRED \<and>
    address_valid (stale_address fsm req) \<and>
    fst (call_reachable env ((stale_address fsm req)\<lparr>address_valid := True\<rparr>) st) \<le> 0 \<longrightarrow>
      fst (ni_fsm_require_check_reachable env fsm req st) = False) \<and>
   ((\<forall>h f a t w. fst (ni_resolve_hostname_timed env h f a t w) \<le> 0) \<and>
    \<not> address_valid (user_data req) \<longrightarrow>
      (\<forall>b\<in>set (evaluate_rounds env fsms req st). \<not> b))"
proof (intro conjI impI)
  assume "event_seq req \<noteq> last_event_seq fsm NI_EVENT_ADDRESS_ACQUIRED \<and>
    \<not> address_valid (stale_address fsm req) \<and>
    fst (call_resolve env (stale_address fsm req) st) \<le> 0"
  then show "fst (ni_fsm_require_check_reachable env fsm req st) = False"
    by (auto simp: ni_fsm_require_check_reachable_def Let_def split: prod.splits)
next
  assume h: "event_seq req \<noteq> last_event_seq fsm NI_EVENT_ADDRESS_ACQUIRED \<and>
    \<not> address_valid (stale_address fsm req) \<and>
    0 < fst (call_resolve env (stale_address fsm req) st) \<and>
    fst (call_reachable env
           ((fst (snd (call_resolve env (stale_address fsm req) st)))\<lparr>address_valid := True\<rparr>)
           (snd (snd (call_resolve env (stale_address fsm req) st)))) \<le> 0"
  obtain n c2 st1 where r: "call_resolve env (stale_address fsm req) st = (n, c2, st1)"
    by (cases "call_resolve env (stale_address fsm req) st")
  with h have "fst (call_reachable env (c2\<lparr>address_valid := True\<rparr>) st1) \<le> 0" by simp
  then have "fst (check_host env
      (req\<lparr>event_seq := fsm_event_seq fsm, user_data := stale_address fsm req\<rparr>) c2 st1) = False"
    by (rule check_host_probe_fails)
  with h r show "fst (ni_fsm_require_check_reachable env fsm req st) = False"
    by (simp add: ni_fsm_require_check_reachable_def Let_def)
next
  assume h: "event_seq req \<noteq> last_event_seq fsm NI_EVENT_ADDRESS_ACQUIRED \<and>
    address_valid (stale_address fsm req) \<and>
    fst (call_reachable env ((stale_address fsm req)\<lparr>address_valid := True\<rparr>) st) \<le> 0"
  then have "fst (check_host env
      (req\<lparr>event_seq := fsm_event_seq fsm, user_data := stale_address fsm req\<rparr>)
      (stale_address fsm req) st) = False"
    by (simp add: check_host_probe_fails)
  with h show "fst (ni_fsm_require_check_reachable env fsm req st) = False"
    by (simp add: ni_fsm_require_check_reachable_def Let_def)
next
  assume "(\<forall>h f a t w. fst (ni_resolve_hostname_timed env h f a t w) \<le> 0) \<and>
    \<not> address_valid (user_data req)"
  then show "\<forall>b\<in>set (evaluate_rounds env fsms req st). \<not> b"
    using unresolvable_rounds by blast
qed

text \<open>The three failures at concrete inputs, and three rounds with a resolver that
  always fails (Example 3 of the spec).\<close>

theorem check_reachable_fails_closed_witness:
  "event_seq (host_req 0 False ''192.0.2.1'') \<noteq> last_event_seq (fsm_at 7 5 0) NI_EVENT_ADDRESS_ACQUIRED \<and>
   \<not> address_valid (stale_address (fsm_at 7 5 0) (host_req 0 False ''192.0.2.1'')) \<and>
   fst (call_resolve (fixed_env 0 1) (stale_address (fsm_at 7 5 0) (host_req 0 False ''192.0.2.1''))
          \<lparr>net_world = 0, net_calls = []\<rparr>) \<le> 0 \<and>
   fst (ni_fsm_require_check_reachable (fixed_env 0 1) (fsm_at 7 5 0)
          (host_req 0 False ''192.0.2.1'') \<lparr>net_world = 0, net_calls = []\<rparr>) = False \<and>
   0 < fst (call_resolve (fixed_env 1 0) (stale_address (fsm_at 7 5 0) (host_req 0 False ''192.0.2.1''))
          \<lparr>net_world = 0, net_calls = []\<rparr>) \<and>
   fst (call_reachable (fixed_env 1 0)
          ((fst (snd (call_resolve (fixed_env 1 0)
              (stale_address (fsm_at 7 5 0) (host_req 0 False ''192.0.2.1''))
              \<lparr>net_world = 0, net_calls = []\<rparr>)))\<lparr>address_valid := True\<rparr>)
          (snd (snd (call_resolve (fixed_env 1 0)
              (stale_address (fsm_at 7 5 0) (host_req 0 False ''192.0.2.1''))
              \<lparr>net_world = 0, net_calls = []\<rparr>)))) \<le> 0 \<and>
   fst (ni_fsm_require_check_reachable (fixed_env 1 0) (fsm_at 7 5 0)
          (host_req 0 False ''192.0.2.1'') \<lparr>net_world = 0, net_calls = []\<rparr>) = False \<and>
   event_seq (host_req 0 True ''192.0.2.1'') \<noteq> last_event_seq (fsm_at 7 5 0) NI_EVENT_ADDRESS_ACQUIRED \<and>
   address_valid (stale_address (fsm_at 7 5 0) (host_req 0 True ''192.0.2.1'')) \<and>
   fst (call_reachable (fixed_env 1 0)
          ((stale_address (fsm_at 7 5 0) (host_req 0 True ''192.0.2.1''))\<lparr>address_valid := True\<rparr>)
          \<lparr>net_world = 0, net_calls = []\<rparr>) \<le> 0 \<and>
   fst (ni_fsm_require_check_reachable (fixed_env 1 0) (fsm_at 7 5 0)
          (host_req 0 True ''192.0.2.1'') \<lparr>net_world = 0, net_calls = []\<rparr>) = False \<and>
   (\<forall>h f a t w. fst (ni_resolve_hostname_timed (fixed_env 0 1) h f a t w) \<le> 0) \<and>
   set (evaluate_rounds (fixed_env 0 1) [fsm_at 1 1 0, fsm_at 2 1 2, fsm_at 3 3 2]
          (host_req 0 False ''192.0.2.1'') \<lparr>net_world = 0, net_calls = []\<rparr>) \<subseteq> {False}"
proof -
  let ?st = "\<lparr>net_world = 0::nat, net_calls = ([] :: string net_call list)\<rparr>"
  have sa: "stale_address (fsm_at 7 5 0) (host_req 0 False ''192.0.2.1'') =
      user_data (host_req 0 False ''192.0.2.1'')"
    "stale_address (fsm_at 7 5 0) (host_req 0 True ''192.0.2.1'') =
      user_data (host_req 0 True ''192.0.2.1'')"
    by (simp_all add: stale_address_def fsm_at_def host_req_def)
  have a: "event_seq (host_req 0 False ''192.0.2.1'') \<noteq>
      last_event_seq (fsm_at 7 5 0) NI_EVENT_ADDRESS_ACQUIRED"
    "event_seq (host_req 0 True ''192.0.2.1'') \<noteq>
      last_event_seq (fsm_at 7 5 0) NI_EVENT_ADDRESS_ACQUIRED"
    by (simp_all add: fsm_at_def host_req_def)
  have b: "\<not> address_valid (stale_address (fsm_at 7 5 0) (host_req 0 False ''192.0.2.1''))"
    "address_valid (stale_address (fsm_at 7 5 0) (host_req 0 True ''192.0.2.1''))"
    by (simp_all add: sa) (simp_all add: host_req_def)
  have c: "fst (call_resolve (fixed_env 0 1)
      (stale_address (fsm_at 7 5 0) (host_req 0 False ''192.0.2.1'')) ?st) \<le> 0"
    by (simp add: call_resolve_def fixed_env_def)
  have d: "0 < fst (call_resolve (fixed_env 1 0)
      (stale_address (fsm_at 7 5 0) (host_req 0 False ''192.0.2.1'')) ?st)"
    by (simp add: call_resolve_def fixed_env_def)
  have e: "fst (call_reachable (fixed_env 1 0)
          ((fst (snd (call_resolve (fixed_env 1 0)
              (stale_address (fsm_at 7 5 0) (host_req 0 False ''192.0.2.1'')) ?st)))
                \<lparr>address_valid := True\<rparr>)
          (snd (snd (call_resolve (fixed_env 1 0)
              (stale_address (fsm_at 7 5 0) (host_req 0 False ''192.0.2.1'')) ?st)))) \<le> 0"
    by (simp add: call_reachable_def fixed_env_def)
  have f: "fst (call_reachable (fixed_env 1 0)
          ((stale_address (fsm_at 7 5 0) (host_req 0 True ''192.0.2.1''))\<lparr>address_valid := True\<rparr>)
          ?st) \<le> 0"
    by (simp add: call_reachable_def fixed_env_def)
  have g: "\<forall>h f a t w. fst (ni_resolve_hostname_timed (fixed_env 0 1) h f a t w) \<le> 0"
    by (simp add: fixed_env_def)
  have h: "\<not> address_valid (user_data (host_req 0 False ''192.0.2.1''))"
    by (simp add: host_req_def)
  have r1: "fst (ni_fsm_require_check_reachable (fixed_env 0 1) (fsm_at 7 5 0)
          (host_req 0 False ''192.0.2.1'') ?st) = False"
    using check_reachable_fails_closed[of "host_req 0 False ''192.0.2.1''" "fsm_at 7 5 0"
        "fixed_env 0 1" ?st "[]"] a(1) b(1) c
    by blast
  have r2: "fst (ni_fsm_require_check_reachable (fixed_env 1 0) (fsm_at 7 5 0)
          (host_req 0 False ''192.0.2.1'') ?st) = False"
    using check_reachable_fails_closed[of "host_req 0 False ''192.0.2.1''" "fsm_at 7 5 0"
        "fixed_env 1 0" ?st "[]"] a(1) b(1) d e
    by blast
  have r3: "fst (ni_fsm_require_check_reachable (fixed_env 1 0) (fsm_at 7 5 0)
          (host_req 0 True ''192.0.2.1'') ?st) = False"
    using check_reachable_fails_closed[of "host_req 0 True ''192.0.2.1''" "fsm_at 7 5 0"
        "fixed_env 1 0" ?st "[]"] a(2) b(2) f
    by blast
  have r4: "set (evaluate_rounds (fixed_env 0 1) [fsm_at 1 1 0, fsm_at 2 1 2, fsm_at 3 3 2]
               (host_req 0 False ''192.0.2.1'') ?st) \<subseteq> {False}"
    using check_reachable_fails_closed[of "host_req 0 False ''192.0.2.1''" "fsm_at 7 5 0"
        "fixed_env 0 1" ?st "[fsm_at 1 1 0, fsm_at 2 1 2, fsm_at 3 3 2]"] g h
    by blast
  show ?thesis
    by (intro conjI) (fact a b c d e f g r1 r2 r3 r4)+
qed

section \<open>Properties of the extension runs\<close>

subsection \<open>The stages of a run\<close>

lemma expand_environment_ok:
  "\<forall>f\<in>set fs. fst (xpath_format_eval os f xml) \<and> length (snd (xpath_format_eval os f xml)) \<le> 1 \<Longrightarrow>
   expand_environment os fs xml env st =
     (Some (env @ concat (map (\<lambda>f. take 1 (snd (xpath_format_eval os f xml))) fs)),
      st\<lparr>ext_trace := ext_trace st @ map Ev_eval fs\<rparr>)"
proof (induction fs arbitrary: env st)
  case Nil
  show ?case by simp
next
  case (Cons f fs)
  obtain ok r where e: "xpath_format_eval os f xml = (ok, r)" by (cases "xpath_format_eval os f xml")
  from Cons.prems e have ok: "ok" and len: "length r \<le> 1" by auto
  from len consider "r = []" | x where "r = [x]"
    by (cases r) auto
  note shape = this
  from Cons.prems have rest: "\<forall>f\<in>set fs. fst (xpath_format_eval os f xml) \<and>
      length (snd (xpath_format_eval os f xml)) \<le> 1" by simp
  from shape show ?case
  proof cases
    case 1
    then show ?thesis using e ok Cons.IH[OF rest] by (simp add: do_eval_def)
  next
    case 2
    then show ?thesis using e ok Cons.IH[OF rest] by (simp add: do_eval_def)
  qed
qed

lemma expand_environment_bad:
  "\<exists>f\<in>set fs. \<not> fst (xpath_format_eval os f xml) \<or> 1 < length (snd (xpath_format_eval os f xml)) \<Longrightarrow>
   \<exists>k<length fs. expand_environment os fs xml env st =
     (None, st\<lparr>ext_trace := ext_trace st @ map Ev_eval (take (Suc k) fs)\<rparr>)"
proof (induction fs arbitrary: env st)
  case Nil
  then show ?case by simp
next
  case (Cons f fs)
  obtain ok r where e: "xpath_format_eval os f xml = (ok, r)" by (cases "xpath_format_eval os f xml")
  show ?case
  proof (cases "\<not> ok \<or> 1 < length r")
    case True
    then have "expand_environment os (f # fs) xml env st =
        (None, st\<lparr>ext_trace := ext_trace st @ map Ev_eval (take (Suc 0) (f # fs))\<rparr>)"
      using e by (simp add: do_eval_def)
    then show ?thesis by (intro exI[of _ 0]) simp
  next
    case False
    with Cons.prems e have "\<exists>f\<in>set fs. \<not> fst (xpath_format_eval os f xml) \<or>
        1 < length (snd (xpath_format_eval os f xml))" by auto
    from Cons.IH[OF this, of "if length r \<noteq> 0 then env @ [r ! 0] else env"
        "st\<lparr>ext_trace := ext_trace st @ [Ev_eval f]\<rparr>"]
    obtain k where k: "k < length fs"
      "expand_environment os fs xml (if length r \<noteq> 0 then env @ [r ! 0] else env)
         (st\<lparr>ext_trace := ext_trace st @ [Ev_eval f]\<rparr>) =
       (None, st\<lparr>ext_trace := ext_trace st @ [Ev_eval f]\<rparr>
          \<lparr>ext_trace := ext_trace (st\<lparr>ext_trace := ext_trace st @ [Ev_eval f]\<rparr>)
             @ map Ev_eval (take (Suc k) fs)\<rparr>)"
      by blast
    have "expand_environment os (f # fs) xml env st =
        (None, st\<lparr>ext_trace := ext_trace st @ map Ev_eval (take (Suc (Suc k)) (f # fs))\<rparr>)"
      using e False k(2) by (simp add: do_eval_def)
    with k(1) show ?thesis by (intro exI[of _ "Suc k"]) simp
  qed
qed

lemma run_reaches_spawn:
  assumes env_ok: "\<forall>f\<in>set (environment ex). fst (xpath_format_eval os f xml) \<and>
                     length (snd (xpath_format_eval os f xml)) \<le> 1"
    and cmd: "xpath_format_eval os cmd xml = (True, [c])"
  shows "ni_extension_run os ex ifname xml command_name (Some cmd) st =
           spawn_and_wait os ex ifname xml command_name
             (concat (map (\<lambda>f. take 1 (snd (xpath_format_eval os f xml))) (environment ex))) c
             (st\<lparr>ext_trace := ext_trace st @ map Ev_eval (environment ex @ [cmd])\<rparr>)"
  using cmd by (simp add: ni_extension_run_def expand_environment_ok[OF env_ok] do_eval_def)

lemma spawn_child_exits:
  assumes "do_fork os env c (do_signal os st) = (pid, st1)" and "0 < pid"
    and "wait_for_child os pid st1 = Some (Some status, st2)"
  shows "spawn_and_wait os ex ifname xml command_name env c st =
           Some (child_verdict os ex ifname xml command_name status st2)"
  using assms by (simp add: spawn_and_wait_def)

subsection \<open>The example run\<close>

lemma demo_env_ok:
  "\<forall>f\<in>set (environment (dhcp p [''e1'', ''e2''])). fst (xpath_format_eval demo_os f doc) \<and>
      length (snd (xpath_format_eval demo_os f doc)) \<le> 1"
  by (simp add: dhcp_def demo_os_def doc_def)

lemma demo_cmd:
  "xpath_format_eval demo_os ''start'' doc = (True, [''dhcpcd eth0''])"
  "xpath_format_eval demo_os ''stop'' doc = (True, [''dhcpcd -k eth0''])"
  by (simp_all add: demo_os_def doc_def)

lemma demo_fork:
  "do_fork demo_os
     (concat (map (\<lambda>f. take 1 (snd (xpath_format_eval demo_os f doc)))
        (environment (dhcp p [''e1'', ''e2'']))))
     c (do_signal demo_os
          ((boot fs)\<lparr>ext_trace := ext_trace (boot fs)
             @ map Ev_eval (environment (dhcp p [''e1'', ''e2'']) @ [cmd])\<rparr>))
   = (42, (reaped fs cmd c)\<lparr>ext_world := ext_world (boot fs),
         ext_trace := butlast (butlast (ext_trace (reaped fs cmd c)))\<rparr>)"
  by (simp add: do_fork_def do_signal_def demo_os_def dhcp_def doc_def boot_def reaped_def)

lemma demo_wait:
  "wait_for_child demo_os 42
     ((reaped fs cmd c)\<lparr>ext_world := ext_world (boot fs),
         ext_trace := butlast (butlast (ext_trace (reaped fs cmd c)))\<rparr>)
   = Some (Some (W_exited 0), reaped fs cmd c)"
  apply (subst wait_for_child.simps)
  apply (simp add: do_waitpid_def demo_os_def boot_def reaped_def)
  apply (subst wait_for_child.simps)
  apply (simp add: do_waitpid_def demo_os_def boot_def reaped_def)
  done

lemma demo_active:
  "ni_extension_active demo_os (dhcp (Some ''pid'') es) ''eth0'' doc (reaped fs cmd c) =
     (if ''/var/run/dhcpcd-eth0.pid'' \<in> set fs then 1 else 0,
      (reaped fs cmd c)\<lparr>ext_trace := ext_trace (reaped fs cmd c)
         @ [Ev_eval ''pid'', Ev_access ''/var/run/dhcpcd-eth0.pid'']\<rparr>)"
  by (simp add: ni_extension_active_def do_eval_def do_access_def demo_os_def dhcp_def doc_def
      reaped_def)

subsection \<open>No command\<close>

text \<open>
  Claim C9. A run whose command format is absent returns 0 and leaves the state as it
  was: no expression is evaluated, no process is created, nothing else is called. So
  does \<open>ni_extension_start\<close> for an extension without a start command, and
  \<open>ni_extension_stop\<close> for one without a stop command.
\<close>

theorem extension_without_command:
  "ni_extension_run os ex ifname xml command_name None st = Some (0, st) \<and>
   (start_command ex = None \<longrightarrow> ni_extension_start os ex ifname xml st = Some (0, st)) \<and>
   (stop_command ex = None \<longrightarrow> ni_extension_stop os ex ifname xml st = Some (0, st))"
  by (simp add: ni_extension_run_def ni_extension_start_def ni_extension_stop_def)

text \<open>An extension with neither command.\<close>

theorem extension_without_command_witness:
  "start_command ((dhcp (Some ''pid'') [''e3''])\<lparr>start_command := None, stop_command := None\<rparr>) = None \<and>
   stop_command ((dhcp (Some ''pid'') [''e3''])\<lparr>start_command := None, stop_command := None\<rparr>) = None \<and>
   ni_extension_start demo_os
     ((dhcp (Some ''pid'') [''e3''])\<lparr>start_command := None, stop_command := None\<rparr>)
     ''eth0'' doc (boot []) = Some (0, boot []) \<and>
   ni_extension_stop demo_os
     ((dhcp (Some ''pid'') [''e3''])\<lparr>start_command := None, stop_command := None\<rparr>)
     ''eth0'' doc (boot []) = Some (0, boot [])"
  using extension_without_command[of demo_os
      "(dhcp (Some ''pid'') [''e3''])\<lparr>start_command := None, stop_command := None\<rparr>"
      "''eth0''" doc "''start''" "boot []"]
  by (simp add: dhcp_def)

subsection \<open>Expressions that fail\<close>

text \<open>
  Claim C7. In a run with a command format: if one of the environment expressions fails
  to evaluate or yields more than one string, the run returns \<open>-1\<close> after evaluating the
  expressions up to the first such one, with nothing else called and the world
  untouched. If every environment expression evaluates to at most one string and the
  command format fails to evaluate or yields a number of strings other than one, the
  run returns \<open>-1\<close> after these evaluations, again with nothing else called. If the
  command format yields the one string \<open>c\<close>, the run goes on to create the process for
  \<open>c\<close>, and the environment it passes holds the string of each expression that yielded
  one, in order, and nothing for an expression that yielded none.
\<close>

theorem extension_expression_errors:
  "((\<exists>f\<in>set (environment ex). \<not> fst (xpath_format_eval os f xml) \<or>
                                 1 < length (snd (xpath_format_eval os f xml))) \<longrightarrow>
      (\<exists>k<length (environment ex).
         ni_extension_run os ex ifname xml command_name (Some cmd) st =
           Some (- 1, st\<lparr>ext_trace := ext_trace st
                          @ map Ev_eval (take (Suc k) (environment ex))\<rparr>))) \<and>
   ((\<forall>f\<in>set (environment ex). fst (xpath_format_eval os f xml) \<and>
                                 length (snd (xpath_format_eval os f xml)) \<le> 1) \<and>
    (\<not> fst (xpath_format_eval os cmd xml) \<or> length (snd (xpath_format_eval os cmd xml)) \<noteq> 1) \<longrightarrow>
      ni_extension_run os ex ifname xml command_name (Some cmd) st =
        Some (- 1, st\<lparr>ext_trace := ext_trace st @ map Ev_eval (environment ex @ [cmd])\<rparr>)) \<and>
   ((\<forall>f\<in>set (environment ex). fst (xpath_format_eval os f xml) \<and>
                                 length (snd (xpath_format_eval os f xml)) \<le> 1) \<and>
    xpath_format_eval os cmd xml = (True, [c]) \<longrightarrow>
      ni_extension_run os ex ifname xml command_name (Some cmd) st =
        spawn_and_wait os ex ifname xml command_name
          (concat (map (\<lambda>f. take 1 (snd (xpath_format_eval os f xml))) (environment ex))) c
          (st\<lparr>ext_trace := ext_trace st @ map Ev_eval (environment ex @ [cmd])\<rparr>))"
proof (intro conjI impI)
  assume "\<exists>f\<in>set (environment ex). \<not> fst (xpath_format_eval os f xml) \<or>
            1 < length (snd (xpath_format_eval os f xml))"
  from expand_environment_bad[OF this, of "[]" st]
  obtain k where k: "k < length (environment ex)"
    "expand_environment os (environment ex) xml [] st =
       (None, st\<lparr>ext_trace := ext_trace st @ map Ev_eval (take (Suc k) (environment ex))\<rparr>)"
    by blast
  have "ni_extension_run os ex ifname xml command_name (Some cmd) st =
      Some (- 1, st\<lparr>ext_trace := ext_trace st @ map Ev_eval (take (Suc k) (environment ex))\<rparr>)"
    using k(2) by (simp add: ni_extension_run_def)
  with k(1) show "\<exists>k<length (environment ex).
         ni_extension_run os ex ifname xml command_name (Some cmd) st =
           Some (- 1, st\<lparr>ext_trace := ext_trace st
                          @ map Ev_eval (take (Suc k) (environment ex))\<rparr>)"
    by blast
next
  assume h: "(\<forall>f\<in>set (environment ex). fst (xpath_format_eval os f xml) \<and>
                length (snd (xpath_format_eval os f xml)) \<le> 1) \<and>
    (\<not> fst (xpath_format_eval os cmd xml) \<or> length (snd (xpath_format_eval os cmd xml)) \<noteq> 1)"
  then have env_ok: "\<forall>f\<in>set (environment ex). fst (xpath_format_eval os f xml) \<and>
      length (snd (xpath_format_eval os f xml)) \<le> 1" by simp
  obtain ok r where e: "xpath_format_eval os cmd xml = (ok, r)"
    by (cases "xpath_format_eval os cmd xml")
  with h have "\<not> ok \<or> length r \<noteq> 1" by simp
  then show "ni_extension_run os ex ifname xml command_name (Some cmd) st =
        Some (- 1, st\<lparr>ext_trace := ext_trace st @ map Ev_eval (environment ex @ [cmd])\<rparr>)"
    using e by (auto simp: ni_extension_run_def expand_environment_ok[OF env_ok] do_eval_def)
next
  assume "(\<forall>f\<in>set (environment ex). fst (xpath_format_eval os f xml) \<and>
                length (snd (xpath_format_eval os f xml)) \<le> 1) \<and>
    xpath_format_eval os cmd xml = (True, [c])"
  then have a: "\<forall>f\<in>set (environment ex). fst (xpath_format_eval os f xml) \<and>
                length (snd (xpath_format_eval os f xml)) \<le> 1"
    and b: "xpath_format_eval os cmd xml = (True, [c])" by simp_all
  show "ni_extension_run os ex ifname xml command_name (Some cmd) st =
        spawn_and_wait os ex ifname xml command_name
          (concat (map (\<lambda>f. take 1 (snd (xpath_format_eval os f xml))) (environment ex))) c
          (st\<lparr>ext_trace := ext_trace st @ map Ev_eval (environment ex @ [cmd])\<rparr>)"
    using a b by (rule run_reaches_spawn)
qed

text \<open>At concrete inputs: an environment expression with two values, a command format
  with none, and a run that reaches the process creation with the one variable of
  \<open>e1\<close>, \<open>e2\<close> having no value.\<close>

theorem extension_expression_errors_witness:
  "(\<exists>f\<in>set (environment (dhcp None [''e1'', ''e3'', ''e2''])).
      \<not> fst (xpath_format_eval demo_os f doc) \<or> 1 < length (snd (xpath_format_eval demo_os f doc))) \<and>
   (\<exists>k<length (environment (dhcp None [''e1'', ''e3'', ''e2''])).
      ni_extension_run demo_os (dhcp None [''e1'', ''e3'', ''e2'']) ''eth0'' doc ''start''
        (Some ''start'') (boot []) =
      Some (- 1, (boot [])\<lparr>ext_trace := ext_trace (boot [])
         @ map Ev_eval (take (Suc k) (environment (dhcp None [''e1'', ''e3'', ''e2''])))\<rparr>)) \<and>
   environment (dhcp None [''e1'', ''e2'']) = [''e1'', ''e2''] \<and>
   xpath_format_eval demo_os ''e1'' doc = (True, [''IFNAME=eth0'']) \<and>
   xpath_format_eval demo_os ''e2'' doc = (True, []) \<and>
   length (snd (xpath_format_eval demo_os ''none'' doc)) \<noteq> 1 \<and>
   ni_extension_run demo_os (dhcp None [''e1'', ''e2'']) ''eth0'' doc ''start'' (Some ''none'') (boot [])
     = Some (- 1, (boot [])\<lparr>ext_trace := ext_trace (boot [])
          @ map Ev_eval (environment (dhcp None [''e1'', ''e2'']) @ [''none''])\<rparr>) \<and>
   xpath_format_eval demo_os ''start'' doc = (True, [''dhcpcd eth0'']) \<and>
   ni_extension_run demo_os (dhcp None [''e1'', ''e2'']) ''eth0'' doc ''start'' (Some ''start'') (boot [])
     = spawn_and_wait demo_os (dhcp None [''e1'', ''e2'']) ''eth0'' doc ''start''
         (concat (map (\<lambda>f. take 1 (snd (xpath_format_eval demo_os f doc)))
            (environment (dhcp None [''e1'', ''e2''])))) ''dhcpcd eth0''
         ((boot [])\<lparr>ext_trace := ext_trace (boot [])
            @ map Ev_eval (environment (dhcp None [''e1'', ''e2'']) @ [''start''])\<rparr>) \<and>
   concat (map (\<lambda>f. take 1 (snd (xpath_format_eval demo_os f doc)))
            (environment (dhcp None [''e1'', ''e2'']))) = [''IFNAME=eth0'']"
proof -
  have a: "\<exists>f\<in>set (environment (dhcp None [''e1'', ''e3'', ''e2''])).
      \<not> fst (xpath_format_eval demo_os f doc) \<or> 1 < length (snd (xpath_format_eval demo_os f doc))"
    by (simp add: dhcp_def demo_os_def doc_def)
  have b: "length (snd (xpath_format_eval demo_os ''none'' doc)) \<noteq> 1"
    by (simp add: demo_os_def doc_def)
  have v: "environment (dhcp None [''e1'', ''e2'']) = [''e1'', ''e2'']"
    "xpath_format_eval demo_os ''e1'' doc = (True, [''IFNAME=eth0''])"
    "xpath_format_eval demo_os ''e2'' doc = (True, [])"
    by (simp_all add: dhcp_def demo_os_def doc_def)
  have e: "concat (map (\<lambda>f. take 1 (snd (xpath_format_eval demo_os f doc)))
            (environment (dhcp None [''e1'', ''e2'']))) = [''IFNAME=eth0'']"
    by (simp add: dhcp_def demo_os_def doc_def)
  have r1: "\<exists>k<length (environment (dhcp None [''e1'', ''e3'', ''e2''])).
      ni_extension_run demo_os (dhcp None [''e1'', ''e3'', ''e2'']) ''eth0'' doc ''start''
        (Some ''start'') (boot []) =
      Some (- 1, (boot [])\<lparr>ext_trace := ext_trace (boot [])
         @ map Ev_eval (take (Suc k) (environment (dhcp None [''e1'', ''e3'', ''e2''])))\<rparr>)"
    using extension_expression_errors[of "dhcp None [''e1'', ''e3'', ''e2'']" demo_os doc
        "''eth0''" "''start''" "''start''" "boot []"] a
    by blast
  have r2: "ni_extension_run demo_os (dhcp None [''e1'', ''e2'']) ''eth0'' doc ''start''
      (Some ''none'') (boot [])
     = Some (- 1, (boot [])\<lparr>ext_trace := ext_trace (boot [])
          @ map Ev_eval (environment (dhcp None [''e1'', ''e2'']) @ [''none''])\<rparr>)"
    using extension_expression_errors[of "dhcp None [''e1'', ''e2'']" demo_os doc
        "''eth0''" "''start''" "''none''" "boot []"] demo_env_ok[of None] b
    by blast
  have r3: "ni_extension_run demo_os (dhcp None [''e1'', ''e2'']) ''eth0'' doc ''start''
      (Some ''start'') (boot [])
     = spawn_and_wait demo_os (dhcp None [''e1'', ''e2'']) ''eth0'' doc ''start''
         (concat (map (\<lambda>f. take 1 (snd (xpath_format_eval demo_os f doc)))
            (environment (dhcp None [''e1'', ''e2''])))) ''dhcpcd eth0''
         ((boot [])\<lparr>ext_trace := ext_trace (boot [])
            @ map Ev_eval (environment (dhcp None [''e1'', ''e2'']) @ [''start''])\<rparr>)"
    using extension_expression_errors[of "dhcp None [''e1'', ''e2'']" demo_os doc
        "''eth0''" "''start''" "''start''" "boot []" "''dhcpcd eth0''"] demo_env_ok[of None] demo_cmd(1)
    by blast
  show ?thesis
    by (intro conjI) (fact a b v e r1 r2 r3 demo_cmd(1))+
qed

subsection \<open>The probe after a clean exit\<close>

text \<open>
  Claim C3. In a run of \<open>ni_extension_start\<close> or \<open>ni_extension_stop\<close> that creates the
  child, whose child exits with status 0, for an extension with a liveness-probe path:
  a start returns \<open>-1\<close> when the probe reports not live, a stop returns \<open>-1\<close> when the
  probe reports live; otherwise the run returns 0.
\<close>

theorem zero_exit_probe_disagrees:
  assumes env_ok: "\<forall>f\<in>set (environment ex). fst (xpath_format_eval os f xml) \<and>
                     length (snd (xpath_format_eval os f xml)) \<le> 1"
    and cmd: "xpath_format_eval os cmd xml = (True, [c])"
    and frk: "do_fork os
                (concat (map (\<lambda>f. take 1 (snd (xpath_format_eval os f xml))) (environment ex))) c
                (do_signal os (st\<lparr>ext_trace := ext_trace st @ map Ev_eval (environment ex @ [cmd])\<rparr>))
              = (pid, st1)"
    and pid: "0 < pid"
    and wt: "wait_for_child os pid st1 = Some (Some (W_exited 0), st2)"
    and probe: "pid_file_path ex \<noteq> None"
    and act: "ni_extension_active os ex ifname xml st2 = (is_active, st3)"
  shows "(start_command ex = Some cmd \<and> is_active = 0 \<longrightarrow>
            ni_extension_start os ex ifname xml st = Some (- 1, st3)) \<and>
         (stop_command ex = Some cmd \<and> is_active \<noteq> 0 \<longrightarrow>
            ni_extension_stop os ex ifname xml st = Some (- 1, st3)) \<and>
         (start_command ex = Some cmd \<and> is_active \<noteq> 0 \<longrightarrow>
            ni_extension_start os ex ifname xml st = Some (0, st3)) \<and>
         (stop_command ex = Some cmd \<and> is_active = 0 \<longrightarrow>
            ni_extension_stop os ex ifname xml st = Some (0, st3))"
proof -
  have run: "ni_extension_run os ex ifname xml command_name (Some cmd) st =
      Some (child_verdict os ex ifname xml command_name (W_exited 0) st2)" for command_name
    using run_reaches_spawn[OF env_ok cmd] spawn_child_exits[OF frk pid wt] by simp
  have start: "child_verdict os ex ifname xml ''start'' (W_exited 0) st2 =
      (if is_active = 0 then - 1 else 0, st3)"
    using probe act by (simp add: child_verdict_def)
  have stop: "child_verdict os ex ifname xml ''stop'' (W_exited 0) st2 =
      (if is_active \<noteq> 0 then - 1 else 0, st3)"
    using probe act by (simp add: child_verdict_def)
  show ?thesis
    using run start stop by (simp add: ni_extension_start_def ni_extension_stop_def)
qed

text \<open>The four cases at concrete inputs: start and stop, with and without the pid file
  in place; \<open>waitpid\<close> is interrupted once before it delivers the exit status 0.\<close>

theorem zero_exit_probe_disagrees_witness:
  "pid_file_path (dhcp (Some ''pid'') [''e1'', ''e2'']) \<noteq> None \<and>
   wait_for_child demo_os 42
     ((reaped [] ''start'' ''dhcpcd eth0'')\<lparr>ext_world := ext_world (boot []),
         ext_trace := butlast (butlast (ext_trace (reaped [] ''start'' ''dhcpcd eth0'')))\<rparr>)
     = Some (Some (W_exited 0), reaped [] ''start'' ''dhcpcd eth0'') \<and>
   ni_extension_start demo_os (dhcp (Some ''pid'') [''e1'', ''e2'']) ''eth0'' doc (boot [])
     = Some (- 1, (reaped [] ''start'' ''dhcpcd eth0'')
          \<lparr>ext_trace := ext_trace (reaped [] ''start'' ''dhcpcd eth0'')
             @ [Ev_eval ''pid'', Ev_access ''/var/run/dhcpcd-eth0.pid'']\<rparr>) \<and>
   ni_extension_stop demo_os (dhcp (Some ''pid'') [''e1'', ''e2'']) ''eth0'' doc (boot [])
     = Some (0, (reaped [] ''stop'' ''dhcpcd -k eth0'')
          \<lparr>ext_trace := ext_trace (reaped [] ''stop'' ''dhcpcd -k eth0'')
             @ [Ev_eval ''pid'', Ev_access ''/var/run/dhcpcd-eth0.pid'']\<rparr>) \<and>
   ni_extension_start demo_os (dhcp (Some ''pid'') [''e1'', ''e2'']) ''eth0'' doc
       (boot [''/var/run/dhcpcd-eth0.pid''])
     = Some (0, (reaped [''/var/run/dhcpcd-eth0.pid''] ''start'' ''dhcpcd eth0'')
          \<lparr>ext_trace := ext_trace (reaped [''/var/run/dhcpcd-eth0.pid''] ''start'' ''dhcpcd eth0'')
             @ [Ev_eval ''pid'', Ev_access ''/var/run/dhcpcd-eth0.pid'']\<rparr>) \<and>
   ni_extension_stop demo_os (dhcp (Some ''pid'') [''e1'', ''e2'']) ''eth0'' doc
       (boot [''/var/run/dhcpcd-eth0.pid''])
     = Some (- 1, (reaped [''/var/run/dhcpcd-eth0.pid''] ''stop'' ''dhcpcd -k eth0'')
          \<lparr>ext_trace := ext_trace (reaped [''/var/run/dhcpcd-eth0.pid''] ''stop'' ''dhcpcd -k eth0'')
             @ [Ev_eval ''pid'', Ev_access ''/var/run/dhcpcd-eth0.pid'']\<rparr>)"
proof -
  have p: "pid_file_path (dhcp (Some ''pid'') [''e1'', ''e2'']) \<noteq> None"
    by (simp add: dhcp_def)
  have s: "start_command (dhcp (Some ''pid'') [''e1'', ''e2'']) = Some ''start''"
    "stop_command (dhcp (Some ''pid'') [''e1'', ''e2'']) = Some ''stop''"
    by (simp_all add: dhcp_def)
  have pos: "(0::int) < 42" by simp
  note a = zero_exit_probe_disagrees[OF demo_env_ok demo_cmd(1) demo_fork pos demo_wait p demo_active,
      of "[]"]
  note b = zero_exit_probe_disagrees[OF demo_env_ok demo_cmd(2) demo_fork pos demo_wait p demo_active,
      of "[]"]
  note c = zero_exit_probe_disagrees[OF demo_env_ok demo_cmd(1) demo_fork pos demo_wait p demo_active,
      of "[''/var/run/dhcpcd-eth0.pid'']"]
  note d = zero_exit_probe_disagrees[OF demo_env_ok demo_cmd(2) demo_fork pos demo_wait p demo_active,
      of "[''/var/run/dhcpcd-eth0.pid'']"]
  show ?thesis
    using a b c d p s demo_wait[of "[]" "''start''" "''dhcpcd eth0''"] by simp
qed

subsection \<open>A probe expression that fails\<close>

text \<open>
  Claim C10. If the liveness-probe path format fails to evaluate or yields a number of
  strings other than one, \<open>ni_extension_active\<close> returns 0, as for a service that is not
  live, after the one evaluation. Hence, in a run that creates the child and whose
  child exits with status 0, a stop returns 0 and a start returns \<open>-1\<close>.
\<close>

theorem probe_expression_error:
  assumes probe: "pid_file_path ex = Some p"
    and bad: "\<not> fst (xpath_format_eval os p xml) \<or> length (snd (xpath_format_eval os p xml)) \<noteq> 1"
  shows "ni_extension_active os ex ifname xml s = (0, s\<lparr>ext_trace := ext_trace s @ [Ev_eval p]\<rparr>) \<and>
    ((\<forall>f\<in>set (environment ex). fst (xpath_format_eval os f xml) \<and>
                                  length (snd (xpath_format_eval os f xml)) \<le> 1) \<and>
     xpath_format_eval os cmd xml = (True, [c]) \<and>
     do_fork os (concat (map (\<lambda>f. take 1 (snd (xpath_format_eval os f xml))) (environment ex))) c
       (do_signal os (st\<lparr>ext_trace := ext_trace st @ map Ev_eval (environment ex @ [cmd])\<rparr>))
       = (pid, st1) \<and>
     0 < pid \<and>
     wait_for_child os pid st1 = Some (Some (W_exited 0), st2) \<longrightarrow>
       (stop_command ex = Some cmd \<longrightarrow>
          ni_extension_stop os ex ifname xml st
            = Some (0, st2\<lparr>ext_trace := ext_trace st2 @ [Ev_eval p]\<rparr>)) \<and>
       (start_command ex = Some cmd \<longrightarrow>
          ni_extension_start os ex ifname xml st
            = Some (- 1, st2\<lparr>ext_trace := ext_trace st2 @ [Ev_eval p]\<rparr>)))"
proof -
  have act: "ni_extension_active os ex ifname xml s = (0, s\<lparr>ext_trace := ext_trace s @ [Ev_eval p]\<rparr>)"
    for s
    using probe bad
    by (cases "xpath_format_eval os p xml") (auto simp: ni_extension_active_def do_eval_def)
  have run: "ni_extension_stop os ex ifname xml st
            = Some (0, st2\<lparr>ext_trace := ext_trace st2 @ [Ev_eval p]\<rparr>)"
    if env_ok: "\<forall>f\<in>set (environment ex). fst (xpath_format_eval os f xml) \<and>
                                  length (snd (xpath_format_eval os f xml)) \<le> 1"
      and cmd: "xpath_format_eval os cmd xml = (True, [c])"
      and frk: "do_fork os
         (concat (map (\<lambda>f. take 1 (snd (xpath_format_eval os f xml))) (environment ex))) c
         (do_signal os (st\<lparr>ext_trace := ext_trace st @ map Ev_eval (environment ex @ [cmd])\<rparr>))
         = (pid, st1)"
      and pid: "0 < pid"
      and wt: "wait_for_child os pid st1 = Some (Some (W_exited 0), st2)"
      and c: "stop_command ex = Some cmd"
  proof -
    have "ni_extension_run os ex ifname xml ''stop'' (Some cmd) st =
        Some (child_verdict os ex ifname xml ''stop'' (W_exited 0) st2)"
      using run_reaches_spawn[OF env_ok cmd] spawn_child_exits[OF frk pid wt] by simp
    then show ?thesis
      using c probe act[of st2] by (simp add: ni_extension_stop_def child_verdict_def)
  qed
  have run': "ni_extension_start os ex ifname xml st
            = Some (- 1, st2\<lparr>ext_trace := ext_trace st2 @ [Ev_eval p]\<rparr>)"
    if env_ok: "\<forall>f\<in>set (environment ex). fst (xpath_format_eval os f xml) \<and>
                                  length (snd (xpath_format_eval os f xml)) \<le> 1"
      and cmd: "xpath_format_eval os cmd xml = (True, [c])"
      and frk: "do_fork os
         (concat (map (\<lambda>f. take 1 (snd (xpath_format_eval os f xml))) (environment ex))) c
         (do_signal os (st\<lparr>ext_trace := ext_trace st @ map Ev_eval (environment ex @ [cmd])\<rparr>))
         = (pid, st1)"
      and pid: "0 < pid"
      and wt: "wait_for_child os pid st1 = Some (Some (W_exited 0), st2)"
      and c: "start_command ex = Some cmd"
  proof -
    have "ni_extension_run os ex ifname xml ''start'' (Some cmd) st =
        Some (child_verdict os ex ifname xml ''start'' (W_exited 0) st2)"
      using run_reaches_spawn[OF env_ok cmd] spawn_child_exits[OF frk pid wt] by simp
    then show ?thesis
      using c probe act[of st2] by (simp add: ni_extension_start_def child_verdict_def)
  qed
  show ?thesis using act run run' by blast
qed

text \<open>At a concrete input: the probe format yields two strings.\<close>

theorem probe_expression_error_witness:
  "pid_file_path (dhcp (Some ''two'') [''e1'', ''e2'']) = Some ''two'' \<and>
   xpath_format_eval demo_os ''two'' doc = (True, [''a'', ''b'']) \<and>
   ni_extension_active demo_os (dhcp (Some ''two'') [''e1'', ''e2'']) ''eth0'' doc (boot [])
     = (0, (boot [])\<lparr>ext_trace := ext_trace (boot []) @ [Ev_eval ''two'']\<rparr>) \<and>
   wait_for_child demo_os 42
     ((reaped [] ''stop'' ''dhcpcd -k eth0'')\<lparr>ext_world := ext_world (boot []),
         ext_trace := butlast (butlast (ext_trace (reaped [] ''stop'' ''dhcpcd -k eth0'')))\<rparr>)
     = Some (Some (W_exited 0), reaped [] ''stop'' ''dhcpcd -k eth0'') \<and>
   ni_extension_stop demo_os (dhcp (Some ''two'') [''e1'', ''e2'']) ''eth0'' doc (boot [])
     = Some (0, (reaped [] ''stop'' ''dhcpcd -k eth0'')
          \<lparr>ext_trace := ext_trace (reaped [] ''stop'' ''dhcpcd -k eth0'') @ [Ev_eval ''two'']\<rparr>) \<and>
   ni_extension_start demo_os (dhcp (Some ''two'') [''e1'', ''e2'']) ''eth0'' doc (boot [])
     = Some (- 1, (reaped [] ''start'' ''dhcpcd eth0'')
          \<lparr>ext_trace := ext_trace (reaped [] ''start'' ''dhcpcd eth0'') @ [Ev_eval ''two'']\<rparr>)"
proof -
  have p: "pid_file_path (dhcp (Some ''two'') [''e1'', ''e2'']) = Some ''two''"
    by (simp add: dhcp_def)
  have bad: "\<not> fst (xpath_format_eval demo_os ''two'' doc) \<or>
      length (snd (xpath_format_eval demo_os ''two'' doc)) \<noteq> 1"
    by (simp add: demo_os_def doc_def)
  have s: "start_command (dhcp (Some ''two'') [''e1'', ''e2'']) = Some ''start''"
    "stop_command (dhcp (Some ''two'') [''e1'', ''e2'']) = Some ''stop''"
    by (simp_all add: dhcp_def)
  have pos: "(0::int) < 42" by simp
  note t1 = probe_expression_error[OF p bad, of "''eth0''" "boot []" "''stop''" "''dhcpcd -k eth0''"
      "boot []" 42 _ "reaped [] ''stop'' ''dhcpcd -k eth0''"]
  note t2 = probe_expression_error[OF p bad, of "''eth0''" "boot []" "''start''" "''dhcpcd eth0''"
      "boot []" 42 _ "reaped [] ''start'' ''dhcpcd eth0''"]
  have r0: "ni_extension_active demo_os (dhcp (Some ''two'') [''e1'', ''e2'']) ''eth0'' doc (boot [])
     = (0, (boot [])\<lparr>ext_trace := ext_trace (boot []) @ [Ev_eval ''two'']\<rparr>)"
    using t1 by blast
  have r1: "ni_extension_stop demo_os (dhcp (Some ''two'') [''e1'', ''e2'']) ''eth0'' doc (boot [])
     = Some (0, (reaped [] ''stop'' ''dhcpcd -k eth0'')
          \<lparr>ext_trace := ext_trace (reaped [] ''stop'' ''dhcpcd -k eth0'') @ [Ev_eval ''two'']\<rparr>)"
    using t1 demo_env_ok[of "Some ''two''"] demo_cmd(2) pos s(2)
      demo_fork[of "Some ''two''" "''dhcpcd -k eth0''" "[]" "''stop''"]
      demo_wait[of "[]" "''stop''" "''dhcpcd -k eth0''"]
    by blast
  have r2: "ni_extension_start demo_os (dhcp (Some ''two'') [''e1'', ''e2'']) ''eth0'' doc (boot [])
     = Some (- 1, (reaped [] ''start'' ''dhcpcd eth0'')
          \<lparr>ext_trace := ext_trace (reaped [] ''start'' ''dhcpcd eth0'') @ [Ev_eval ''two'']\<rparr>)"
    using t2 demo_env_ok[of "Some ''two''"] demo_cmd(1) pos s(1)
      demo_fork[of "Some ''two''" "''dhcpcd eth0''" "[]" "''start''"]
      demo_wait[of "[]" "''start''" "''dhcpcd eth0''"]
    by blast
  have two: "xpath_format_eval demo_os ''two'' doc = (True, [''a'', ''b''])"
    by (simp add: demo_os_def doc_def)
  show ?thesis
    by (intro conjI) (fact p two r0 r1 r2 demo_wait)+
qed

end
